theory Spec2Isabelle
  imports Main "HOL-Library.Sublist"
begin

section \<open>Exceptions, results and the installer's observable state\<close>

text \<open>
  The installer (\<^verbatim>\<open>src/dotfiles.py\<close>) is sequential Python that shells out to external
  programs and logs what it does. The embedding makes its effects explicit:
  \<^item> a Python exception is a value of \<open>exn\<close>; a call either returns (\<open>Ok\<close>) or raises
    (\<open>Raise\<close>), and the state reached is returned in both cases;
  \<^item> \<^verbatim>\<open>sys.exit(1)\<close> raises \<open>SystemExit 1\<close>, which is a \<^verbatim>\<open>BaseException\<close> and is therefore
    caught neither by \<^verbatim>\<open>except subprocess.CalledProcessError\<close> nor by \<^verbatim>\<open>except Exception\<close>;
  \<^item> the external world (processes, the paths they touch) is a parameter: \<open>exec\<close> answers
    each \<^verbatim>\<open>subprocess.run\<close> and \<open>path_exists\<close> answers \<^verbatim>\<open>Path.exists\<close>.
\<close>

datatype exn =
    SystemExit int
  | CalledProcessError "string list" int "string option" "string option"
  | FileNotFoundError string
  | IndexError
  | AttributeError
  | IsADirectoryError "string list"
  | FileExistsError "string list"
  | NotADirectoryError "string list"
  | NoSuchFile "string list"
  | SymlinkLoop "string list"
  | OtherException string

datatype 'a result = Ok 'a | Raise exn

text \<open>
  \<open>is_Exception e\<close> is Python's \<^verbatim>\<open>isinstance(e, Exception)\<close>: everything but \<^verbatim>\<open>SystemExit\<close>.
\<close>

fun is_Exception :: "exn \<Rightarrow> bool" where
  "is_Exception (SystemExit _) = False"
| "is_Exception _ = True"

fun is_CalledProcessError :: "exn \<Rightarrow> bool" where
  "is_CalledProcessError (CalledProcessError _ _ _ _) = True"
| "is_CalledProcessError _ = False"

text \<open>
  One record per call of \<^verbatim>\<open>Logger._log\<close>. The level stands for the colour, the glyph put in
  front of the message and the stream (\<open>ERROR\<close> goes to standard error, the rest to standard
  output); \<open>HEADER\<close> is the glyph-less white line of \<^verbatim>\<open>Logger.header\<close>.
\<close>

datatype level = INFO | SUCCESS | WARNING | ERROR | DEBUG | HEADER

text \<open>What \<^verbatim>\<open>subprocess.run\<close> meets before \<^verbatim>\<open>check\<close> is applied.\<close>

datatype proc =
    Exited int string string
  | NoSuchExecutable
  | Failed string

record completed =
  args :: "string list"
  returncode :: int
  stdout :: "string option"
  stderr :: "string option"

record 'w state =
  world :: 'w
  out :: "(level \<times> string) list"
  issued :: "(string list \<times> string option) list"

record 'w env =
  exec :: "'w \<Rightarrow> string list \<Rightarrow> string option \<Rightarrow> string option \<Rightarrow> proc \<times> 'w"
  path_exists :: "'w \<Rightarrow> string \<Rightarrow> bool"

type_synonym ('a, 'w) prog = "'w state \<Rightarrow> 'a result \<times> 'w state"

definition ret :: "'a \<Rightarrow> ('a, 'w) prog" where
  "ret a = (\<lambda>s. (Ok a, s))"

definition raise :: "exn \<Rightarrow> ('a, 'w) prog" where
  "raise e = (\<lambda>s. (Raise e, s))"

text \<open>Sequencing: a raised exception skips the rest.\<close>

definition bnd :: "('a, 'w) prog \<Rightarrow> ('a \<Rightarrow> ('b, 'w) prog) \<Rightarrow> ('b, 'w) prog" where
  "bnd m f = (\<lambda>s. case m s of (Ok a, s') \<Rightarrow> f a s' | (Raise e, s') \<Rightarrow> (Raise e, s'))"

definition andthen :: "('a, 'w) prog \<Rightarrow> ('b, 'w) prog \<Rightarrow> ('b, 'w) prog" where
  "andthen m k = bnd m (\<lambda>_. k)"

text \<open>
  \<^verbatim>\<open>try: m except <catches> as e: handler e\<close>. An exception that the clause does not
  match propagates; one raised by the handler propagates too.
\<close>

definition try_except ::
  "('a, 'w) prog \<Rightarrow> (exn \<Rightarrow> bool) \<Rightarrow> (exn \<Rightarrow> ('a, 'w) prog) \<Rightarrow> ('a, 'w) prog" where
  "try_except m catches handler =
     (\<lambda>s. case m s of
        (Ok a, s') \<Rightarrow> (Ok a, s')
      | (Raise e, s') \<Rightarrow> if catches e then handler e s' else (Raise e, s'))"

text \<open>
  A \<^verbatim>\<open>try\<close> with two \<^verbatim>\<open>except\<close> clauses: the first clause that matches handles the
  exception, and neither handler is guarded by the other clause.
\<close>

definition try_except2 ::
  "('a, 'w) prog \<Rightarrow> (exn \<Rightarrow> bool) \<Rightarrow> (exn \<Rightarrow> ('a, 'w) prog)
     \<Rightarrow> (exn \<Rightarrow> bool) \<Rightarrow> (exn \<Rightarrow> ('a, 'w) prog) \<Rightarrow> ('a, 'w) prog" where
  "try_except2 m catches1 handler1 catches2 handler2 =
     try_except m (\<lambda>e. catches1 e \<or> catches2 e)
       (\<lambda>e. if catches1 e then handler1 e else handler2 e)"

section \<open>Strings as Python formats them\<close>

definition newline :: string where
  "newline = [CHR 0x0A]"

definition digit :: "nat \<Rightarrow> char" where
  "digit n = ''0123456789'' ! (n mod 10)"

fun str_nat :: "nat \<Rightarrow> string" where
  "str_nat n = (if n < 10 then [digit n] else str_nat (n div 10) @ [digit n])"

declare str_nat.simps [simp del]

definition str_int :: "int \<Rightarrow> string" where
  "str_int i = (if i < 0 then CHR ''-'' # str_nat (nat (- i)) else str_nat (nat i))"

text \<open>\<^verbatim>\<open>sep.join(xs)\<close>.\<close>

fun join :: "string \<Rightarrow> string list \<Rightarrow> string" where
  "join sep [] = []"
| "join sep [x] = x"
| "join sep (x # y # ys) = x @ sep @ join sep (y # ys)"

text \<open>\<^verbatim>\<open>pat in s\<close> on strings: \<open>pat\<close> occurs as a contiguous piece of \<open>s\<close>.\<close>

fun contains :: "string \<Rightarrow> string \<Rightarrow> bool" where
  "contains [] pat = (pat = [])"
| "contains (c # cs) pat = (prefix pat (c # cs) \<or> contains cs pat)"

text \<open>
  Truthiness of \<^verbatim>\<open>s.strip()\<close>: some character of \<open>s\<close> is not white space (space, tab, line
  feed, vertical tab, form feed, carriage return).
\<close>

definition is_space :: "char \<Rightarrow> bool" where
  "is_space c = (c \<in> set [CHR '' '', CHR 0x09, CHR 0x0A, CHR 0x0B, CHR 0x0C, CHR 0x0D])"

definition strip_nonempty :: "string \<Rightarrow> bool" where
  "strip_nonempty s = list_ex (\<lambda>c. \<not> is_space c) s"

text \<open>Truthiness of an optional string (\<^verbatim>\<open>None\<close> and \<^verbatim>\<open>''\<close> are both false).\<close>

fun truthy :: "string option \<Rightarrow> bool" where
  "truthy None = False"
| "truthy (Some s) = (s \<noteq> [])"

text \<open>
  \<^verbatim>\<open>str(e)\<close> as the f-strings of the handlers use it. For \<^verbatim>\<open>CalledProcessError\<close> this is
  Python's own text with the argument list shown by \<^verbatim>\<open>repr\<close>.
\<close>

definition repr_list :: "string list \<Rightarrow> string" where
  "repr_list xs = ''['' @ join '', '' (map (\<lambda>x. [CHR 0x27] @ x @ [CHR 0x27]) xs) @ '']''"

fun str_exn :: "exn \<Rightarrow> string" where
  "str_exn (SystemExit c) = str_int c"
| "str_exn (CalledProcessError cmd rc _ _) =
     ''Command '' @ [CHR 0x27] @ repr_list cmd @ [CHR 0x27]
       @ '' returned non-zero exit status '' @ str_int rc @ ''.''"
| "str_exn (FileNotFoundError f) = ''[Errno 2] No such file or directory: '' @ f"
| "str_exn IndexError = ''list index out of range''"
| "str_exn AttributeError = ''object has no attribute''"
| "str_exn (IsADirectoryError p) = ''[Errno 21] Is a directory''"
| "str_exn (FileExistsError p) = ''[Errno 17] File exists''"
| "str_exn (NotADirectoryError p) = ''[Errno 20] Not a directory''"
| "str_exn (NoSuchFile p) = ''[Errno 2] No such file or directory''"
| "str_exn (SymlinkLoop p) = ''Symlink loop''"
| "str_exn (OtherException m) = m"

section \<open>Logger\<close>

text \<open>
  \<^verbatim>\<open>Logger._log\<close> prints the message and appends it to the session file; the model keeps the
  sequence of records. \<^verbatim>\<open>Logger.error\<close> logs and then, unless called with \<^verbatim>\<open>exit=False\<close>,
  calls \<^verbatim>\<open>sys.exit(1)\<close>.
\<close>

definition log :: "level \<Rightarrow> string \<Rightarrow> (unit, 'w) prog" where
  "log lvl message = (\<lambda>s. (Ok (), s\<lparr>out := out s @ [(lvl, message)]\<rparr>))"

definition info :: "string \<Rightarrow> (unit, 'w) prog" where
  "info message = log INFO message"

definition success :: "string \<Rightarrow> (unit, 'w) prog" where
  "success message = log SUCCESS message"

definition warning :: "string \<Rightarrow> (unit, 'w) prog" where
  "warning message = log WARNING message"

definition error :: "string \<Rightarrow> bool \<Rightarrow> (unit, 'w) prog" where
  "error message exit =
     andthen (log ERROR message) (if exit then raise (SystemExit 1) else ret ())"

section \<open>Command runner\<close>

text \<open>
  \<^verbatim>\<open>subprocess.run(cmd, check=..., capture_output=..., text=True, input=..., cwd=...)\<close>:
  the world answers, the call is recorded, and a non-zero exit status under \<^verbatim>\<open>check\<close> raises
  \<^verbatim>\<open>CalledProcessError\<close> with the captured streams.
\<close>

definition subprocess_run ::
  "'w env \<Rightarrow> string list \<Rightarrow> bool \<Rightarrow> bool \<Rightarrow> string option \<Rightarrow> string option
     \<Rightarrow> (completed, 'w) prog" where
  "subprocess_run E cmd check capture_output inp cwd =
     (\<lambda>s. case exec E (world s) cmd inp cwd of
        (p, w') \<Rightarrow>
          (let s' = s\<lparr>world := w', issued := issued s @ [(cmd, cwd)]\<rparr> in
           case p of
             Exited rc so se \<Rightarrow>
               (let so' = (if capture_output then Some so else None);
                    se' = (if capture_output then Some se else None)
                in if check \<and> rc \<noteq> 0
                   then (Raise (CalledProcessError cmd rc so' se'), s')
                   else (Ok \<lparr>args = cmd, returncode = rc, stdout = so', stderr = se'\<rparr>, s'))
           | NoSuchExecutable \<Rightarrow>
               (Raise (FileNotFoundError (case cmd of [] \<Rightarrow> [] | c # _ \<Rightarrow> c)), s')
           | Failed m \<Rightarrow> (Raise (OtherException m), s')))"

text \<open>The message \<^verbatim>\<open>run_command\<close> builds for a \<^verbatim>\<open>CalledProcessError\<close>.\<close>

definition failed_message ::
  "string list \<Rightarrow> string option \<Rightarrow> int \<Rightarrow> string option \<Rightarrow> string option \<Rightarrow> string" where
  "failed_message cmd cwd rc so se =
     ''Command failed: '' @ join '' '' cmd
     @ (case cwd of Some d \<Rightarrow> newline @ ''Working directory: '' @ d | None \<Rightarrow> [])
     @ newline @ ''Return code: '' @ str_int rc
     @ (if truthy so then newline @ ''Stdout: '' @ the so else [])
     @ (if truthy se then newline @ ''Stderr: '' @ the se else [])"

text \<open>
  \<^verbatim>\<open>run_command\<close>: each handler reports through \<^verbatim>\<open>Logger().error(...)\<close> with the default
  \<^verbatim>\<open>exit=True\<close> and then re-raises with a bare \<^verbatim>\<open>raise\<close>. The three \<^verbatim>\<open>except\<close> clauses are
  tried in order; \<^verbatim>\<open>cmd[0]\<close> on an empty list raises \<^verbatim>\<open>IndexError\<close> inside the handler.
\<close>

definition run_command ::
  "'w env \<Rightarrow> string list \<Rightarrow> bool \<Rightarrow> bool \<Rightarrow> string option \<Rightarrow> string option
     \<Rightarrow> (completed, 'w) prog" where
  "run_command E cmd check capture_output inp cwd =
     try_except (subprocess_run E cmd check capture_output inp cwd) is_Exception
       (\<lambda>e. case e of
          CalledProcessError c rc so se \<Rightarrow>
            andthen (error (failed_message cmd cwd rc so se) True) (raise e)
        | FileNotFoundError f \<Rightarrow>
            (case cmd of
               [] \<Rightarrow> raise IndexError
             | c # _ \<Rightarrow>
                 andthen
                   (error (''Command not found: '' @ c @ newline
                           @ ''Full command: '' @ join '' '' cmd) True)
                   (raise e))
        | _ \<Rightarrow>
            andthen
              (error (''Unexpected error running command: '' @ join '' '' cmd @ newline
                      @ ''Error: '' @ str_exn e) True)
              (raise e))"

text \<open>The call sites use the defaults \<^verbatim>\<open>check=True, capture_output=True, input=None\<close>.\<close>

definition run :: "'w env \<Rightarrow> string list \<Rightarrow> string option \<Rightarrow> (completed, 'w) prog" where
  "run E cmd cwd = run_command E cmd True True None cwd"

section \<open>Repository synchronizer\<close>

text \<open>\<^verbatim>\<open>r.stdout\<close> used as a string: \<^verbatim>\<open>None\<close> has no string methods.\<close>

definition stdout_of :: "completed \<Rightarrow> (string, 'w) prog" where
  "stdout_of r = (case stdout r of None \<Rightarrow> raise AttributeError | Some t \<Rightarrow> ret t)"

definition repo_url :: string where
  "repo_url = ''https://github.com/alamin-mahamud/.dotfiles.git''"

definition stash_label :: string where
  "stash_label = ''Auto-stash before pull''"

definition conflict_warning :: string where
  "conflict_warning = ''Conflicts detected when applying stash. Please resolve manually.''"

definition conflict_hint :: string where
  "conflict_hint = ''Run 'git stash pop' in the dotfiles directory to apply changes''"

definition continuing_note :: string where
  "continuing_note = ''Continuing with existing dotfiles...''"

definition ready_note :: string where
  "ready_note = ''Dotfiles repository ready''"

text \<open>
  \<^verbatim>\<open>DotfilesInstaller.clone_dotfiles\<close>, with \<open>root\<close> the configured \<^verbatim>\<open>dotfiles_root\<close>. The
  three \<^verbatim>\<open>except subprocess.CalledProcessError\<close> clauses are kept where the source has
  them: around \<^verbatim>\<open>git stash pop\<close>, around the whole update, and around \<^verbatim>\<open>git clone\<close>.
\<close>

definition clone_dotfiles :: "'w env \<Rightarrow> string \<Rightarrow> (unit, 'w) prog" where
  "clone_dotfiles E root =
     andthen
       (\<lambda>s.
          (if path_exists E (world s) root
           then
             andthen (info ''Checking dotfiles repository status'')
               (try_except
                  (andthen (run E [''git'', ''rev-parse'', ''--git-dir''] (Some root))
                  (bnd (run E [''git'', ''status'', ''--porcelain''] (Some root)) (\<lambda>status_result.
                   bnd (stdout_of status_result) (\<lambda>status_text.
                   if strip_nonempty status_text
                   then
                     andthen (warning ''Uncommitted changes detected in dotfiles repository'')
                    (andthen (info ''Stashing local changes...'')
                    (andthen (run E [''git'', ''stash'', ''push'', ''-m'', stash_label] (Some root))
                    (andthen (info ''Pulling latest changes'')
                    (andthen (run E [''git'', ''pull'', ''--rebase''] (Some root))
                    (bnd (run E [''git'', ''stash'', ''list''] (Some root)) (\<lambda>stash_list.
                     bnd (stdout_of stash_list) (\<lambda>stash_text.
                     if contains stash_text stash_label
                     then
                       andthen (info ''Reapplying stashed changes'')
                         (try_except
                            (andthen (run E [''git'', ''stash'', ''pop''] (Some root)) (ret ()))
                            is_CalledProcessError
                            (\<lambda>e. andthen (warning conflict_warning) (info conflict_hint)))
                     else ret ())))))))
                   else
                     andthen (info ''Updating dotfiles repository'')
                    (andthen (run E [''git'', ''pull''] (Some root)) (ret ()))))))
                  is_CalledProcessError
                  (\<lambda>e. andthen (error (''Failed to update repository: '' @ str_exn e) True)
                         (info continuing_note)))
           else
             andthen (info ''Cloning dotfiles repository'')
               (try_except
                  (andthen (run E [''git'', ''clone'', repo_url, root] None) (ret ()))
                  is_CalledProcessError
                  (\<lambda>e. andthen (error (''Failed to clone repository: '' @ str_exn e) True)
                         (raise e)))) s)
       (success ready_note)"

text \<open>
  \<^verbatim>\<open>safe_git_pull\<close>. The source falls through to a single \<^verbatim>\<open>return True\<close> after the
  \<^verbatim>\<open>if\<close>/\<^verbatim>\<open>else\<close>; here each branch ends with it, and each handler ends with its own
  \<^verbatim>\<open>return False\<close>.
\<close>

definition safe_git_pull :: "'w env \<Rightarrow> string \<Rightarrow> string \<Rightarrow> (bool, 'w) prog" where
  "safe_git_pull E repo_path repo_name =
     try_except2
          (andthen (run E [''git'', ''rev-parse'', ''--git-dir''] (Some repo_path))
          (bnd (run E [''git'', ''status'', ''--porcelain''] (Some repo_path)) (\<lambda>status.
           bnd (stdout_of status) (\<lambda>status_text.
           if strip_nonempty status_text
           then
             andthen (warning (''Uncommitted changes in '' @ repo_name))
               (try_except
                  (andthen
                     (run E [''git'', ''stash'', ''push'', ''-m'', ''Auto-stash for '' @ repo_name]
                        (Some repo_path))
                  (andthen (info (''Stashed local changes in '' @ repo_name))
                  (andthen (run E [''git'', ''pull'', ''--rebase''] (Some repo_path))
                  (andthen
                     (try_except
                        (andthen (run E [''git'', ''stash'', ''pop''] (Some repo_path))
                           (info (''Reapplied stashed changes in '' @ repo_name)))
                        is_CalledProcessError
                        (\<lambda>e. warning (''Conflicts in '' @ repo_name
                                @ ''. Run 'git stash pop' manually to resolve.'')))
                     (ret True)))))
                  is_CalledProcessError
                  (\<lambda>e. andthen
                          (error (''Failed to update '' @ repo_name @ '': '' @ str_exn e) True)
                          (ret False)))
           else
             andthen (run E [''git'', ''pull''] (Some repo_path)) (ret True)))))
          is_CalledProcessError
          (\<lambda>e. andthen
                  (error (''Git operation failed for '' @ repo_name @ '': '' @ str_exn e) True)
                  (ret False))
          is_Exception
          (\<lambda>e. andthen
                  (error (''Unexpected error updating '' @ repo_name @ '': '' @ str_exn e) True)
                  (ret False))"

subsection \<open>Environments to run the synchronizer in\<close>

text \<open>
  A scripted world answers the calls of \<^verbatim>\<open>subprocess.run\<close> from a list, in order, and
  reports success once the list is used up.
\<close>

definition scripted :: "bool \<Rightarrow> (proc list) env" where
  "scripted there =
     \<lparr>exec = (\<lambda>w cmd inp cwd. case w of [] \<Rightarrow> (Exited 0 [] [], []) | p # ps \<Rightarrow> (p, ps)),
      path_exists = (\<lambda>w p. there)\<rparr>"

definition init :: "'w \<Rightarrow> 'w state" where
  "init w = \<lparr>world = w, out = [], issued = []\<rparr>"

text \<open>
  A simulated clone: whether the directory is there, how many upstream commits the local
  \<^verbatim>\<open>HEAD\<close> has, how many the remote has, whether the working tree carries an uncommitted
  change to a tracked file, whether it holds a file that git does not track, and the
  messages of the stash entries (newest first). As git does, \<^verbatim>\<open>git status --porcelain\<close>
  reports both kinds of change, \<^verbatim>\<open>git stash push\<close> saves only changes to tracked files (and
  saves nothing, successfully, when there are none), \<^verbatim>\<open>git pull --rebase\<close> refuses a tree
  with such changes, and \<^verbatim>\<open>git clone\<close> refuses a directory that is already there.
\<close>

record repo =
  present :: bool
  head :: nat
  remote :: nat
  dirty :: bool
  untracked :: bool
  stashes :: "string list"

definition stash_lines_from :: "nat \<Rightarrow> string list \<Rightarrow> string" where
  "stash_lines_from i ms =
     concat (map (\<lambda>(i, m). ''stash@'' @ ''{'' @ str_nat i @ ''}: On main: '' @ m @ newline)
               (enumerate i ms))"

definition stash_lines :: "string list \<Rightarrow> string" where
  "stash_lines ms = stash_lines_from 0 ms"

definition sim_git :: "repo \<Rightarrow> string list \<Rightarrow> string option \<Rightarrow> string option \<Rightarrow> proc \<times> repo" where
  "sim_git w cmd inp cwd =
     (if cmd = [''git'', ''rev-parse'', ''--git-dir''] then (Exited 0 (''.git'' @ newline) [], w)
      else if cmd = [''git'', ''status'', ''--porcelain'']
        then (Exited 0 ((if dirty w then '' M .zshrc'' @ newline else [])
                        @ (if untracked w then ''?? notes.txt'' @ newline else [])) [], w)
      else if cmd = [''git'', ''pull'']
        then (Exited 0 [] [], w\<lparr>head := remote w\<rparr>)
      else if cmd = [''git'', ''pull'', ''--rebase'']
        then (if dirty w
              then (Exited 128 []
                      ''error: cannot pull with rebase: You have unstaged changes.'', w)
              else (Exited 0 [] [], w\<lparr>head := remote w\<rparr>))
      else if take 4 cmd = [''git'', ''stash'', ''push'', ''-m''] \<and> length cmd = 5
        then (if dirty w
              then (Exited 0 (''Saved working directory and index state On main: ''
                              @ cmd ! 4 @ newline) [],
                    w\<lparr>dirty := False, stashes := (cmd ! 4) # stashes w\<rparr>)
              else (Exited 0 (''No local changes to save'' @ newline) [], w))
      else if cmd = [''git'', ''stash'', ''list'']
        then (Exited 0 (stash_lines (stashes w)) [], w)
      else if cmd = [''git'', ''stash'', ''pop'']
        then (case stashes w of
                [] \<Rightarrow> (Exited 1 [] ''No stash entries found.'', w)
              | m # ms \<Rightarrow> (Exited 0 [] [], w\<lparr>dirty := True, stashes := ms\<rparr>))
      else if take 2 cmd = [''git'', ''clone''] \<and> length cmd = 4
        then (if present w
              then (Exited 128 [] ''fatal: destination path already exists'', w)
              else (Exited 0 [] [],
                    \<lparr>present = True, head = remote w, remote = remote w, dirty = False,
                     untracked = False, stashes = []\<rparr>))
      else (NoSuchExecutable, w))"

text \<open>A clone of a remote with three commits.\<close>

definition sample_repo :: "bool \<Rightarrow> nat \<Rightarrow> bool \<Rightarrow> bool \<Rightarrow> repo" where
  "sample_repo there commits changed extra =
     \<lparr>present = there, head = commits, remote = 3, dirty = changed, untracked = extra,
      stashes = []\<rparr>"

definition simulated :: "repo env" where
  "simulated = \<lparr>exec = sim_git, path_exists = (\<lambda>w p. present w)\<rparr>"

subsection \<open>What a program guarantees\<close>

text \<open>
  \<open>ensures P L m\<close>: from every state, \<open>m\<close> either returns a value satisfying \<open>P\<close> or raises
  \<open>SystemExit 1\<close>, and it only appends log records satisfying \<open>L\<close>.
\<close>

definition ensures :: "('a \<Rightarrow> bool) \<Rightarrow> (level \<times> string \<Rightarrow> bool) \<Rightarrow> ('a, 'w) prog \<Rightarrow> bool" where
  "ensures P L m =
     (\<forall>s. (case fst (m s) of Ok a \<Rightarrow> P a | Raise e \<Rightarrow> e = SystemExit 1)
        \<and> (\<exists>new. out (snd (m s)) = out s @ new \<and> list_all L new))"

text \<open>Log records that only the handlers of \<^verbatim>\<open>clone_dotfiles\<close> write.\<close>

definition quiet :: "level \<times> string \<Rightarrow> bool" where
  "quiet e = (e \<noteq> (WARNING, conflict_warning) \<and> e \<noteq> (INFO, conflict_hint)
              \<and> e \<noteq> (INFO, continuing_note))"

subsection \<open>The clean path of the synchronizer\<close>

text \<open>
  What the world answers to one command issued in the repository (no standard input),
  and the three commands that \<^verbatim>\<open>clone_dotfiles\<close> issues on a clean repository.
\<close>

definition answer :: "'w env \<Rightarrow> string \<Rightarrow> string list \<Rightarrow> 'w \<Rightarrow> proc \<times> 'w" where
  "answer E root cmd w = exec E w cmd None (Some root)"

fun succeeded :: "proc \<Rightarrow> bool" where
  "succeeded (Exited rc so se) = (rc = 0)"
| "succeeded _ = False"

fun printed :: "proc \<Rightarrow> string" where
  "printed (Exited rc so se) = so"
| "printed _ = []"

definition sync_cmds :: "string list list" where
  "sync_cmds = [[''git'', ''rev-parse'', ''--git-dir''], [''git'', ''status'', ''--porcelain''],
                [''git'', ''pull'']]"

definition sync_log :: "(level \<times> string) list" where
  "sync_log = [(INFO, ''Checking dotfiles repository status''),
               (INFO, ''Updating dotfiles repository''), (SUCCESS, ready_note)]"

text \<open>The world after those three commands, run in this order.\<close>

definition after_sync :: "'w env \<Rightarrow> string \<Rightarrow> 'w \<Rightarrow> 'w" where
  "after_sync E root w =
     snd (answer E root [''git'', ''pull'']
       (snd (answer E root [''git'', ''status'', ''--porcelain'']
         (snd (answer E root [''git'', ''rev-parse'', ''--git-dir''] w)))))"

text \<open>
  The directory exists, the three commands succeed, and \<^verbatim>\<open>git status --porcelain\<close> prints
  nothing but white space.
\<close>

definition clean_sync :: "'w env \<Rightarrow> string \<Rightarrow> 'w \<Rightarrow> bool" where
  "clean_sync E root w =
     (let a = answer E root [''git'', ''rev-parse'', ''--git-dir''] w;
          b = answer E root [''git'', ''status'', ''--porcelain''] (snd a);
          c = answer E root [''git'', ''pull''] (snd b)
      in path_exists E w root \<and> succeeded (fst a) \<and> succeeded (fst b)
         \<and> \<not> strip_nonempty (printed (fst b)) \<and> succeeded (fst c))"

section \<open>Config resolver\<close>

text \<open>
  A configuration value is \<^verbatim>\<open>None\<close>, a mapping, a sequence or anything else (a string, a
  number, a boolean, a \<^verbatim>\<open>Path\<close>): \<^verbatim>\<open>_merge_config\<close> and \<^verbatim>\<open>get\<close> only ask whether a value
  is a \<^verbatim>\<open>dict\<close> and whether it is \<^verbatim>\<open>None\<close>, so the other values are a type parameter. A
  \<^verbatim>\<open>dict\<close> is the list of its items in insertion order; Python keeps its keys distinct.
\<close>

datatype 'a pyval = PNone | PScalar 'a | PList "'a pyval list" | PDict "(string \<times> 'a pyval) list"

type_synonym 'a dict = "(string \<times> 'a pyval) list"

text \<open>\<^verbatim>\<open>d[k] = v\<close>: an existing key keeps its place, a new key goes last.\<close>

fun setitem :: "string \<Rightarrow> 'v \<Rightarrow> (string \<times> 'v) list \<Rightarrow> (string \<times> 'v) list" where
  "setitem k v [] = [(k, v)]"
| "setitem k v ((k', v') # d) = (if k' = k then (k, v) # d else (k', v') # setitem k v d)"

text \<open>
  \<^verbatim>\<open>Config._merge_config(base, update)\<close>, as a function from the two mappings to what \<open>base\<close>
  holds afterwards: the loop over \<^verbatim>\<open>update.items()\<close> is the recursion over the list.
\<close>

function merge_config :: "'a dict \<Rightarrow> 'a dict \<Rightarrow> 'a dict" where
  "merge_config base [] = base"
| "merge_config base ((key, value) # rest) =
     merge_config
       (case (map_of base key, value) of
          (Some (PDict b), PDict u) \<Rightarrow> setitem key (PDict (merge_config b u)) base
        | _ \<Rightarrow> setitem key value base)
       rest"
  by pat_completeness auto
termination
  by (relation "measure (\<lambda>(b, u). size_list (size_prod (\<lambda>_. 0) size) u)") auto

text \<open>
  \<^verbatim>\<open>'.'.split\<close> of Python: the pieces between the separators, at least one piece.
\<close>

fun split :: "char \<Rightarrow> string \<Rightarrow> string list" where
  "split sep [] = [[]]"
| "split sep (c # cs) =
     (if c = sep then [] # split sep cs
      else (case split sep cs of w # ws \<Rightarrow> (c # w) # ws | [] \<Rightarrow> [[c]]))"

text \<open>
  The loop of \<^verbatim>\<open>Config.get\<close>: \<^verbatim>\<open>value.get(k)\<close> is \<^verbatim>\<open>None\<close> for a missing key and for a key
  bound to \<^verbatim>\<open>None\<close>, and both return the fallback.
\<close>

fun walk :: "'a pyval \<Rightarrow> string list \<Rightarrow> 'a pyval \<Rightarrow> 'a pyval" where
  "walk value [] fallback = value"
| "walk value (k # keys) fallback =
     (case value of
        PDict d \<Rightarrow>
          (case map_of d k of
             None \<Rightarrow> fallback
           | Some PNone \<Rightarrow> fallback
           | Some v \<Rightarrow> walk v keys fallback)
      | _ \<Rightarrow> fallback)"

definition get :: "'a dict \<Rightarrow> string \<Rightarrow> 'a pyval \<Rightarrow> 'a pyval" where
  "get config key fallback = walk (PDict config) (split (CHR ''.'') key) fallback"

text \<open>
  \<^verbatim>\<open>Config.__init__\<close> on values: \<open>user_config\<close> is what \<^verbatim>\<open>json.load\<close> returned, or \<open>None\<close> when
  no file was given or the file does not exist. A document that is not an object has no
  \<^verbatim>\<open>items\<close>.
\<close>

definition Config :: "'a dict \<Rightarrow> 'a pyval option \<Rightarrow> 'a dict result" where
  "Config defaults user_config =
     (case user_config of
        None \<Rightarrow> Ok defaults
      | Some (PDict update) \<Rightarrow> Ok (merge_config defaults update)
      | Some _ \<Rightarrow> Raise AttributeError)"

text \<open>The scalars of the built-in defaults and of JSON documents.\<close>

datatype scalar = Str string | Path "string list" | Num int | Bool bool

definition DEFAULT_CONFIG :: "string list \<Rightarrow> scalar dict" where
  "DEFAULT_CONFIG home =
     [(''dotfiles_root'', PScalar (Path (home @ [''Work'', ''.dotfiles'']))),
      (''backup_dir'', PScalar (Path (home @ [''.dotfiles-backup'']))),
      (''shell'', PDict [(''default'', PScalar (Str ''zsh'')),
                         (''theme'', PScalar (Str ''powerlevel10k''))]),
      (''tools'', PList (map (\<lambda>t. PScalar (Str t))
         [''ripgrep'', ''fd'', ''bat'', ''eza'', ''fzf'', ''tmux'', ''neovim'', ''htop'', ''jq'',
          ''tldr''])),
      (''fonts'', PList (map (\<lambda>t. PScalar (Str t)) [''FiraCode'', ''JetBrainsMono'', ''Iosevka'']))]"

subsection \<open>Vocabulary for the properties of the resolver\<close>

text \<open>The value at a path of keys, if every step finds a mapping and the key in it.\<close>

fun descend :: "'a pyval \<Rightarrow> string list \<Rightarrow> 'a pyval option" where
  "descend v [] = Some v"
| "descend v (k # ks) =
     (case v of
        PDict d \<Rightarrow> (case map_of d k of None \<Rightarrow> None | Some x \<Rightarrow> descend x ks)
      | _ \<Rightarrow> None)"

text \<open>
  The override leaves a path alone: following the path in the override falls off at a
  missing key, before the path ends and before a value that is not a mapping is met.
\<close>

fun untouched :: "'a pyval \<Rightarrow> string list \<Rightarrow> bool" where
  "untouched v [] = False"
| "untouched v (k # ks) =
     (case v of
        PDict d \<Rightarrow> (case map_of d k of None \<Rightarrow> True | Some x \<Rightarrow> untouched x ks)
      | _ \<Rightarrow> False)"

text \<open>\<^verbatim>\<open>isinstance(v, dict)\<close>.\<close>

fun is_dict :: "'a pyval \<Rightarrow> bool" where
  "is_dict (PDict d) = True"
| "is_dict _ = False"

text \<open>Every mapping inside a value has distinct keys, as every Python \<^verbatim>\<open>dict\<close> has.\<close>

fun distinct_keys :: "'a pyval \<Rightarrow> bool" where
  "distinct_keys (PDict kvs) =
     (distinct (map fst kvs) \<and> list_all (\<lambda>kv. distinct_keys (snd kv)) kvs)"
| "distinct_keys (PList xs) = list_all distinct_keys xs"
| "distinct_keys _ = True"

text \<open>A dotted key: its segments, none of which contains a dot.\<close>

definition segments :: "string list \<Rightarrow> bool" where
  "segments ks = (ks \<noteq> [] \<and> list_all (\<lambda>k. CHR ''.'' \<notin> set k) ks)"

subsection \<open>The resolver on shared objects\<close>

text \<open>
  \<^verbatim>\<open>Config.__init__\<close> starts from \<^verbatim>\<open>self.DEFAULT_CONFIG.copy()\<close>, a shallow copy: the nested
  mappings of the class attribute are then reachable from the class and from the
  instance. Such objects live in a store and are referred to by address (their index);
  a value that nothing else refers to, like what \<^verbatim>\<open>json.load\<close> has just built, is kept as
  a tree.
\<close>

datatype 'a hval = HRef nat | HVal "'a pyval"

type_synonym 'a heap = "(string \<times> 'a hval) list list"

text \<open>\<^verbatim>\<open>d.copy()\<close>: a new object with the items of the old one.\<close>

definition dict_copy :: "nat \<Rightarrow> 'a heap \<Rightarrow> nat \<times> 'a heap" where
  "dict_copy a h = (length h, h @ [h ! a])"

text \<open>
  \<^verbatim>\<open>_merge_config(base, update)\<close> with \<open>base\<close> an object of the store: the recursive call on
  a nested mapping of \<open>base\<close> updates that object in place.
\<close>

function merge_heap :: "nat \<Rightarrow> 'a dict \<Rightarrow> 'a heap \<Rightarrow> 'a heap" where
  "merge_heap base [] h = h"
| "merge_heap base ((key, value) # rest) h =
     merge_heap base rest
       (case (map_of (h ! base) key, value) of
          (Some (HRef b), PDict u) \<Rightarrow> merge_heap b u h
        | (Some (HVal (PDict b)), PDict u) \<Rightarrow>
            h[base := setitem key (HVal (PDict (merge_config b u))) (h ! base)]
        | _ \<Rightarrow> h[base := setitem key (HVal value) (h ! base)])"
  by pat_completeness auto
termination
  by (relation "measure (\<lambda>(base, u, h). size_list (size_prod (\<lambda>_. 0) size) u)") auto

fun walk_heap :: "'a heap \<Rightarrow> 'a hval \<Rightarrow> string list \<Rightarrow> 'a hval \<Rightarrow> 'a hval" where
  "walk_heap h value [] fallback = value"
| "walk_heap h value (k # keys) fallback =
     (case value of
        HRef a \<Rightarrow>
          (case map_of (h ! a) k of
             None \<Rightarrow> fallback
           | Some (HVal PNone) \<Rightarrow> fallback
           | Some v \<Rightarrow> walk_heap h v keys fallback)
      | HVal (PDict d) \<Rightarrow>
          (case map_of d k of
             None \<Rightarrow> fallback
           | Some PNone \<Rightarrow> fallback
           | Some v \<Rightarrow> walk_heap h (HVal v) keys fallback)
      | _ \<Rightarrow> fallback)"

definition get_heap :: "'a heap \<Rightarrow> nat \<Rightarrow> string \<Rightarrow> 'a hval \<Rightarrow> 'a hval" where
  "get_heap h config key fallback = walk_heap h (HRef config) (split (CHR ''.'') key) fallback"

text \<open>
  \<^verbatim>\<open>Config(config_file)\<close>: \<open>defaults\<close> is the address of the class attribute; the result is
  the address of \<^verbatim>\<open>self.config\<close> and the store afterwards.
\<close>

definition new_Config :: "nat \<Rightarrow> 'a pyval option \<Rightarrow> 'a heap \<Rightarrow> nat result \<times> 'a heap" where
  "new_Config defaults user_config h =
     (case dict_copy defaults h of
        (config, h') \<Rightarrow>
          (case user_config of
             None \<Rightarrow> (Ok config, h')
           | Some (PDict update) \<Rightarrow> (Ok config, merge_heap config update h')
           | Some _ \<Rightarrow> (Raise AttributeError, h')))"

text \<open>
  The store when the class has been defined: object 0 is \<^verbatim>\<open>DEFAULT_CONFIG\<close>, object 1 its
  \<^verbatim>\<open>'shell'\<close> mapping.
\<close>

definition class_heap :: "string list \<Rightarrow> scalar heap" where
  "class_heap home =
     [map (\<lambda>(k, v). (k, if k = ''shell'' then HRef 1 else HVal v)) (DEFAULT_CONFIG home),
      [(''default'', HVal (PScalar (Str ''zsh''))),
       (''theme'', HVal (PScalar (Str ''powerlevel10k'')))]]"

text \<open>The tree that a stored value stands for, down to a given depth of references.\<close>

fun read :: "nat \<Rightarrow> 'a heap \<Rightarrow> 'a hval \<Rightarrow> 'a pyval" where
  "read n h (HVal v) = v"
| "read 0 h (HRef a) = PNone"
| "read (Suc n) h (HRef a) = PDict (map (\<lambda>kv. (fst kv, read n h (snd kv))) (h ! a))"

section \<open>File manager\<close>

text \<open>
  The file system is a finite table from locations to nodes. A location is the list of
  names from the root down; the root itself is a directory and has no entry. The
  directories above the last name of a location are taken literally (no symbolic link
  among them); a symbolic link holds the location it points to, and \<^verbatim>\<open>stat\<close> follows a
  chain of links at the last name, giving up after 40 hops as Linux does.
\<close>

type_synonym path = "string list"

datatype 'c node = File 'c | Dir | Symlink path

type_synonym 'c fs = "(path \<times> 'c node) list"

definition lstat :: "'c fs \<Rightarrow> path \<Rightarrow> 'c node option" where
  "lstat fs p = (if p = [] then Some Dir else map_of fs p)"

fun follow :: "nat \<Rightarrow> 'c fs \<Rightarrow> path \<Rightarrow> (path \<times> 'c node) option" where
  "follow 0 fs p =
     (case lstat fs p of None \<Rightarrow> None | Some (Symlink t) \<Rightarrow> None | Some n \<Rightarrow> Some (p, n))"
| "follow (Suc k) fs p =
     (case lstat fs p of None \<Rightarrow> None | Some (Symlink t) \<Rightarrow> follow k fs t | Some n \<Rightarrow> Some (p, n))"

definition stat :: "'c fs \<Rightarrow> path \<Rightarrow> (path \<times> 'c node) option" where
  "stat fs p = follow 40 fs p"

text \<open>\<^verbatim>\<open>Path.exists\<close>, \<^verbatim>\<open>Path.is_dir\<close> (both follow links) and \<^verbatim>\<open>Path.is_symlink\<close>.\<close>

definition fs_exists :: "'c fs \<Rightarrow> path \<Rightarrow> bool" where
  "fs_exists fs p = (stat fs p \<noteq> None)"

definition fs_is_dir :: "'c fs \<Rightarrow> path \<Rightarrow> bool" where
  "fs_is_dir fs p = (case stat fs p of Some (q, Dir) \<Rightarrow> True | _ \<Rightarrow> False)"


text \<open>
  \<^verbatim>\<open>Path.resolve()\<close>: the location at the end of the chain of links, whether or not
  anything is there; a chain that does not end raises.
\<close>

fun resolve_from :: "nat \<Rightarrow> 'c fs \<Rightarrow> path \<Rightarrow> path option" where
  "resolve_from 0 fs p = (case lstat fs p of Some (Symlink t) \<Rightarrow> None | _ \<Rightarrow> Some p)"
| "resolve_from (Suc k) fs p =
     (case lstat fs p of Some (Symlink t) \<Rightarrow> resolve_from k fs t | _ \<Rightarrow> Some p)"

definition resolve :: "path \<Rightarrow> (path, 'c fs) prog" where
  "resolve p =
     (\<lambda>s. case resolve_from 40 (world s) p of
        None \<Rightarrow> (Raise (SymlinkLoop p), s)
      | Some q \<Rightarrow> (Ok q, s))"

definition parent_of :: "path \<Rightarrow> path" where
  "parent_of p = butlast p"

definition name_of :: "path \<Rightarrow> string" where
  "name_of p = (if p = [] then [] else last p)"

definition str_path :: "path \<Rightarrow> string" where
  "str_path p = CHR ''/'' # join ''/'' p"

definition remove :: "path \<Rightarrow> 'c fs \<Rightarrow> 'c fs" where
  "remove p fs = filter (\<lambda>e. fst e \<noteq> p) fs"

definition put :: "path \<Rightarrow> 'c node \<Rightarrow> 'c fs \<Rightarrow> 'c fs" where
  "put p n fs = (p, n) # remove p fs"


text \<open>
  \<^verbatim>\<open>Path.mkdir(parents=True, exist_ok=True)\<close>: every missing directory on the way is
  made; a file in the way raises.
\<close>

fun mkdirs :: "path \<Rightarrow> path \<Rightarrow> 'c fs \<Rightarrow> exn + 'c fs" where
  "mkdirs done [] fs = Inr fs"
| "mkdirs done (c # cs) fs =
     (case stat fs (done @ [c]) of
        None \<Rightarrow>
          (case lstat fs (done @ [c]) of
             None \<Rightarrow> mkdirs (done @ [c]) cs (put (done @ [c]) Dir fs)
           | Some n \<Rightarrow> Inl (FileExistsError (done @ [c])))
      | Some (q, Dir) \<Rightarrow> mkdirs (done @ [c]) cs fs
      | Some (q, n) \<Rightarrow>
          Inl (if cs = [] then FileExistsError (done @ [c]) else NotADirectoryError (done @ [c])))"

definition mkdir_parents :: "path \<Rightarrow> (unit, 'c fs) prog" where
  "mkdir_parents p =
     (\<lambda>s. case mkdirs [] p (world s) of
        Inl e \<Rightarrow> (Raise e, s)
      | Inr fs \<Rightarrow> (Ok (), s\<lparr>world := fs\<rparr>))"


text \<open>
  \<^verbatim>\<open>shutil.copy2(src, dst)\<close>: the content (data and metadata) of the file that \<open>src\<close>
  leads to is written to \<open>dst\<close>: into \<open>dst\<close> under the name of \<open>src\<close> if \<open>dst\<close> is a
  directory, over the file that \<open>dst\<close> leads to if there is one, and else to a new file
  where \<open>dst\<close> leads, whose directory must exist.
\<close>

definition copy2 :: "path \<Rightarrow> path \<Rightarrow> (unit, 'c fs) prog" where
  "copy2 src dst =
     (\<lambda>s. let fs = world s in
        case stat fs src of
          None \<Rightarrow> (Raise (NoSuchFile src), s)
        | Some (q, Dir) \<Rightarrow> (Raise (IsADirectoryError src), s)
        | Some (q, Symlink t) \<Rightarrow> (Raise (SymlinkLoop src), s)
        | Some (q, File c) \<Rightarrow>
            (case stat fs dst of
               Some (d, Dir) \<Rightarrow>
                 (case lstat fs (d @ [name_of src]) of
                    Some Dir \<Rightarrow> (Raise (IsADirectoryError (d @ [name_of src])), s)
                  | Some (Symlink t) \<Rightarrow> (Raise (OtherException ''not modelled''), s)
                  | _ \<Rightarrow> (Ok (), s\<lparr>world := put (d @ [name_of src]) (File c) fs\<rparr>))
             | Some (d, n) \<Rightarrow> (Ok (), s\<lparr>world := put d (File c) fs\<rparr>)
             | None \<Rightarrow>
                 (case resolve_from 40 fs dst of
                    None \<Rightarrow> (Raise (SymlinkLoop dst), s)
                  | Some d \<Rightarrow>
                      if fs_is_dir fs (parent_of d)
                      then (Ok (), s\<lparr>world := put d (File c) fs\<rparr>)
                      else (Raise (NoSuchFile dst), s))))"

text \<open>
  \<^verbatim>\<open>shutil.copytree(src, dst)\<close>: \<open>dst\<close> must be a free name; the directory that \<open>src\<close>
  leads to is copied there with everything below it. A symbolic link below the source
  would be followed by Python; such trees are outside this model, which stops there.
\<close>

definition below :: "path \<Rightarrow> 'c fs \<Rightarrow> 'c fs" where
  "below d fs = filter (\<lambda>e. strict_prefix d (fst e)) fs"

fun is_link :: "'c node \<Rightarrow> bool" where
  "is_link (Symlink t) = True"
| "is_link _ = False"

definition copytree :: "path \<Rightarrow> path \<Rightarrow> (unit, 'c fs) prog" where
  "copytree src dst =
     (\<lambda>s. let fs = world s in
        case stat fs src of
          None \<Rightarrow> (Raise (NoSuchFile src), s)
        | Some (q, File c) \<Rightarrow> (Raise (NotADirectoryError src), s)
        | Some (q, Symlink t) \<Rightarrow> (Raise (SymlinkLoop src), s)
        | Some (q, Dir) \<Rightarrow>
            if lstat fs dst \<noteq> None then (Raise (FileExistsError dst), s)
            else if list_ex (\<lambda>e. is_link (snd e)) (below q fs)
              then (Raise (OtherException ''not modelled''), s)
            else
              (case mkdirs [] dst fs of
                 Inl e \<Rightarrow> (Raise e, s)
               | Inr fs' \<Rightarrow>
                   (Ok (), s\<lparr>world :=
                      map (\<lambda>e. (dst @ drop (length q) (fst e), snd e)) (below q fs) @ fs'\<rparr>)))"

text \<open>\<^verbatim>\<open>datetime.now().strftime('%Y%m%d_%H%M%S')\<close>.\<close>

record datetime =
  year :: nat
  month :: nat
  day :: nat
  hour :: nat
  minute :: nat
  second :: nat

definition zfill :: "nat \<Rightarrow> string \<Rightarrow> string" where
  "zfill w t = replicate (w - length t) (CHR ''0'') @ t"

definition timestamp :: "datetime \<Rightarrow> string" where
  "timestamp now =
     zfill 4 (str_nat (year now)) @ zfill 2 (str_nat (month now)) @ zfill 2 (str_nat (day now))
     @ ''_'' @ zfill 2 (str_nat (hour now)) @ zfill 2 (str_nat (minute now))
     @ zfill 2 (str_nat (second now))"

definition backup_path :: "datetime \<Rightarrow> path \<Rightarrow> path" where
  "backup_path now path = parent_of path @ [name_of path @ ''.backup.'' @ timestamp now]"

text \<open>\<^verbatim>\<open>FileManager.backup\<close>, called at the time \<open>now\<close>.\<close>

definition backup :: "datetime \<Rightarrow> path \<Rightarrow> (path, 'c fs) prog" where
  "backup now path =
     (\<lambda>s. if \<not> fs_exists (world s) path then ret path s
          else
            andthen
              (if fs_is_dir (world s) path
               then copytree path (backup_path now path)
               else copy2 path (backup_path now path))
           (andthen
              (success (''Backed up '' @ str_path path @ '' to ''
                        @ str_path (backup_path now path)))
              (ret (backup_path now path))) s)"


text \<open>\<^verbatim>\<open>FileManager.ensure_dir\<close>.\<close>

definition ensure_dir :: "path \<Rightarrow> (path, 'c fs) prog" where
  "ensure_dir path = andthen (mkdir_parents path) (ret path)"

subsection \<open>Well-formed file systems\<close>





subsection \<open>A sample home directory\<close>



section \<open>Properties of the logger, the command runner and the synchronizer\<close>

lemma error_exit:
  "error msg True s = (Raise (SystemExit 1), s\<lparr>out := out s @ [(ERROR, msg)]\<rparr>)"
  by (simp add: error_def andthen_def bnd_def log_def raise_def)

lemma error_no_exit: "error msg False s = (Ok (), s\<lparr>out := out s @ [(ERROR, msg)]\<rparr>)"
  by (simp add: error_def andthen_def bnd_def log_def ret_def)

subsection \<open>Rules for \<open>ensures\<close>\<close>

lemma ensures_ret: "P a \<Longrightarrow> ensures P L (ret a)"
  by (simp add: ensures_def ret_def)

lemma ensures_log: "P () \<Longrightarrow> L (lvl, msg) \<Longrightarrow> ensures P L (log lvl msg)"
  by (simp add: ensures_def log_def)

lemma ensures_info: "P () \<Longrightarrow> L (INFO, msg) \<Longrightarrow> ensures P L (info msg)"
  by (simp add: info_def ensures_log)

lemma ensures_warning: "P () \<Longrightarrow> L (WARNING, msg) \<Longrightarrow> ensures P L (warning msg)"
  by (simp add: warning_def ensures_log)

lemma ensures_success: "P () \<Longrightarrow> L (SUCCESS, msg) \<Longrightarrow> ensures P L (success msg)"
  by (simp add: success_def ensures_log)

lemma ensures_error: "L (ERROR, msg) \<Longrightarrow> ensures P L (error msg True)"
  by (simp add: ensures_def error_exit)

lemma ensures_bnd:
  assumes m: "ensures Q L m" and f: "\<And>a. Q a \<Longrightarrow> ensures P L (f a)"
  shows "ensures P L (bnd m f)"
proof (unfold ensures_def, intro allI)
  fix s
  obtain r s' where rs: "m s = (r, s')" by (cases "m s")
  from m rs obtain new where new: "out s' = out s @ new" "list_all L new"
    and r: "case r of Ok a \<Rightarrow> Q a | Raise e \<Rightarrow> e = SystemExit 1"
    by (auto simp: ensures_def dest!: spec [of _ s])
  show "(case fst (bnd m f s) of Ok a \<Rightarrow> P a | Raise e \<Rightarrow> e = SystemExit 1) \<and>
        (\<exists>new. out (snd (bnd m f s)) = out s @ new \<and> list_all L new)"
  proof (cases r)
    case (Raise e)
    with rs r new show ?thesis by (simp add: bnd_def)
  next
    case (Ok a)
    with r have "Q a" by simp
    from f [OF this] obtain new' where
      "out (snd (f a s')) = out s' @ new'" "list_all L new'"
      and "case fst (f a s') of Ok a \<Rightarrow> P a | Raise e \<Rightarrow> e = SystemExit 1"
      by (auto simp: ensures_def dest!: spec [of _ s'])
    with rs Ok new show ?thesis by (simp add: bnd_def)
  qed
qed

lemma ensures_seq:
  "ensures (\<lambda>_. True) L m \<Longrightarrow> ensures P L k \<Longrightarrow> ensures P L (andthen m k)"
  unfolding andthen_def by (rule ensures_bnd)

lemma ensures_weaken: "ensures Q L m \<Longrightarrow> (\<And>a. Q a \<Longrightarrow> P a) \<Longrightarrow> ensures P L m"
  by (auto simp: ensures_def split: result.splits)

text \<open>
  A handler around a block that can only exit is dead code, whatever it catches short of
  \<^verbatim>\<open>SystemExit\<close> itself.
\<close>

lemma try_dead:
  assumes m: "ensures P L m" and c: "\<not> catches (SystemExit 1)"
  shows "try_except m catches h = m"
proof
  fix s
  obtain r s' where rs: "m s = (r, s')" by (cases "m s")
  with m have "case r of Ok a \<Rightarrow> P a | Raise e \<Rightarrow> e = SystemExit 1"
    by (auto simp: ensures_def dest!: spec [of _ s])
  with rs c show "try_except m catches h s = m s"
    by (cases r) (simp_all add: try_except_def)
qed

lemma ensures_try:
  "ensures P L m \<Longrightarrow> \<not> catches (SystemExit 1) \<Longrightarrow> ensures P L (try_except m catches h)"
  by (simp add: try_dead)

lemma ensures_try2:
  "ensures P L m \<Longrightarrow> \<not> catches1 (SystemExit 1) \<Longrightarrow> \<not> catches2 (SystemExit 1)
     \<Longrightarrow> ensures P L (try_except2 m catches1 h1 catches2 h2)"
  by (simp add: try_except2_def try_dead)

lemma ensures_if_state:
  "ensures P L a \<Longrightarrow> ensures P L b \<Longrightarrow> ensures P L (\<lambda>s. (if c s then a else b) s)"
  by (simp add: ensures_def)

lemma ensures_if:
  "ensures P L a \<Longrightarrow> ensures P L b \<Longrightarrow> ensures P L (if c then a else b)"
  by simp

lemma ensures_stdout_of: "stdout r \<noteq> None \<Longrightarrow> ensures (\<lambda>_. True) L (stdout_of r)"
  by (auto simp: ensures_def stdout_of_def ret_def)

lemma ensures_run_command:
  assumes L: "\<And>msg. L (ERROR, msg)"
  shows "ensures (\<lambda>r. stdout r \<noteq> None) L
           (run_command (E :: 'w env) (c # cs) check True inp cwd)"
proof (unfold ensures_def, intro allI)
  fix s :: "'w state"
  obtain p w' where ex: "exec E (world s) (c # cs) inp cwd = (p, w')"
    by (cases "exec E (world s) (c # cs) inp cwd")
  show "(case fst (run_command E (c # cs) check True inp cwd s) of
           Ok r \<Rightarrow> stdout r \<noteq> None | Raise e \<Rightarrow> e = SystemExit 1) \<and>
        (\<exists>new. out (snd (run_command E (c # cs) check True inp cwd s)) = out s @ new
           \<and> list_all L new)"
    using ex L
    by (cases p)
       (simp_all add: run_command_def try_except_def subprocess_run_def error_exit
          andthen_def bnd_def Let_def)
qed

lemma ensures_run:
  "(\<And>msg. L (ERROR, msg)) \<Longrightarrow> ensures (\<lambda>r. stdout r \<noteq> None) L (run E (c # cs) cwd)"
  unfolding run_def by (rule ensures_run_command)

lemma ensures_run_any:
  "(\<And>msg. L (ERROR, msg)) \<Longrightarrow> ensures (\<lambda>_. True) L (run E (c # cs) cwd)"
  by (rule ensures_weaken [OF ensures_run]) simp_all

lemma ensures_bnd_run:
  "(\<And>msg. L (ERROR, msg)) \<Longrightarrow> (\<And>r. stdout r \<noteq> None \<Longrightarrow> ensures P L (f r))
     \<Longrightarrow> ensures P L (bnd (run E (c # cs) cwd) f)"
  by (rule ensures_bnd [OF ensures_run])

lemma ensures_bnd_stdout:
  "stdout r \<noteq> None \<Longrightarrow> (\<And>t. ensures P L (f t)) \<Longrightarrow> ensures P L (bnd (stdout_of r) f)"
  by (rule ensures_bnd [OF ensures_stdout_of])

lemmas ensures_intros =
  ensures_seq ensures_bnd_run ensures_bnd_stdout ensures_try ensures_try2 ensures_if
  ensures_if_state
  ensures_info ensures_warning ensures_success ensures_error ensures_ret
  ensures_run_any

lemma quiet_error: "quiet (ERROR, msg)"
  by (simp add: quiet_def)

lemma clone_dotfiles_ensures: "ensures (\<lambda>_. True) quiet (clone_dotfiles E root)"
  unfolding clone_dotfiles_def
  apply (intro ensures_intros quiet_error)
  apply (simp_all add: quiet_def conflict_warning_def conflict_hint_def continuing_note_def
      ready_note_def)
  done

lemma safe_git_pull_ensures: "ensures (\<lambda>b. b) (\<lambda>_. True) (safe_git_pull E p n)"
  unfolding safe_git_pull_def
  apply (intro ensures_intros)
  apply simp_all
  done

lemma run_command_raises:
  "(case fst (run_command E cmd check cap inp cwd s) of
      Ok r \<Rightarrow> True
    | Raise e \<Rightarrow> e = SystemExit 1 \<or> (cmd = [] \<and> e = IndexError))"
  by (auto simp: run_command_def try_except_def subprocess_run_def error_exit andthen_def
        bnd_def raise_def Let_def
      split: prod.splits proc.splits list.splits exn.splits result.splits)

lemma try_run_command:
  "try_except (run_command E cmd check cap inp cwd) is_CalledProcessError h
     = run_command E cmd check cap inp cwd"
proof
  fix s
  obtain r s' where rs: "run_command E cmd check cap inp cwd s = (r, s')"
    by (cases "run_command E cmd check cap inp cwd s")
  have "case r of Ok x \<Rightarrow> True | Raise e \<Rightarrow> e = SystemExit 1 \<or> (cmd = [] \<and> e = IndexError)"
    using run_command_raises [where E=E and cmd=cmd and check=check and cap=cap and inp=inp
        and cwd=cwd and s=s] rs
    by simp
  then show "try_except (run_command E cmd check cap inp cwd) is_CalledProcessError h s
               = run_command E cmd check cap inp cwd s"
    using rs by (cases r) (auto simp: try_except_def)
qed

lemma new_records:
  assumes "ensures P L m"
  shows "list_all L (drop (length (out s)) (out (snd (m s))))"
proof -
  from assms obtain new where "out (snd (m s)) = out s @ new" "list_all L new"
    by (auto simp: ensures_def dest!: spec [of _ s])
  then show ?thesis by simp
qed

text \<open>
  C10. \<^verbatim>\<open>Logger.error\<close> with its default \<^verbatim>\<open>exit=True\<close> logs and raises \<^verbatim>\<open>SystemExit(1)\<close>
  instead of returning. Hence \<^verbatim>\<open>run_command\<close> never lets a \<^verbatim>\<open>CalledProcessError\<close> or a
  \<^verbatim>\<open>FileNotFoundError\<close> out: what it raises is \<^verbatim>\<open>SystemExit(1)\<close> (or, for an empty argument
  list, the \<^verbatim>\<open>IndexError\<close> of \<^verbatim>\<open>cmd[0]\<close>). So an \<^verbatim>\<open>except subprocess.CalledProcessError\<close>
  around a \<^verbatim>\<open>run_command\<close> call never runs, whatever its handler is: \<^verbatim>\<open>safe_git_pull\<close>
  never returns \<^verbatim>\<open>False\<close>, and \<^verbatim>\<open>clone_dotfiles\<close> never writes the conflict warning, the
  hint after it or the "Continuing with existing dotfiles..." note, and raises nothing but
  \<^verbatim>\<open>SystemExit(1)\<close>.
\<close>

theorem error_exit_makes_handlers_unreachable:
  "error msg True s = (Raise (SystemExit 1), s\<lparr>out := out s @ [(ERROR, msg)]\<rparr>)
   \<and> (case fst (run_command E cmd check cap inp cwd s) of
         Ok r \<Rightarrow> True
       | Raise e \<Rightarrow> e = SystemExit 1 \<or> (cmd = [] \<and> e = IndexError))
   \<and> try_except (run_command E cmd check cap inp cwd) is_CalledProcessError h
        = run_command E cmd check cap inp cwd
   \<and> fst (safe_git_pull E repo_path repo_name s) \<noteq> Ok False
   \<and> (case fst (clone_dotfiles E root s) of Ok u \<Rightarrow> True | Raise e \<Rightarrow> e = SystemExit 1)
   \<and> (WARNING, conflict_warning)
        \<notin> set (drop (length (out s)) (out (snd (clone_dotfiles E root s))))
   \<and> (INFO, conflict_hint)
        \<notin> set (drop (length (out s)) (out (snd (clone_dotfiles E root s))))
   \<and> (INFO, continuing_note)
        \<notin> set (drop (length (out s)) (out (snd (clone_dotfiles E root s))))"
proof -
  have pull: "fst (safe_git_pull E repo_path repo_name s) \<noteq> Ok False"
    using safe_git_pull_ensures [of E repo_path repo_name]
    by (auto simp: ensures_def dest!: spec [of _ s])
  have exits: "case fst (clone_dotfiles E root s) of Ok u \<Rightarrow> True | Raise e \<Rightarrow> e = SystemExit 1"
    using clone_dotfiles_ensures [of E root]
    by (auto simp: ensures_def dest!: spec [of _ s])
  have "list_all quiet (drop (length (out s)) (out (snd (clone_dotfiles E root s))))"
    by (rule new_records [OF clone_dotfiles_ensures])
  then have logs: "\<forall>e \<in> set (drop (length (out s)) (out (snd (clone_dotfiles E root s)))).
      e \<noteq> (WARNING, conflict_warning) \<and> e \<noteq> (INFO, conflict_hint) \<and> e \<noteq> (INFO, continuing_note)"
    by (simp add: list_all_iff quiet_def)
  show ?thesis
    using error_exit run_command_raises try_run_command pull exits logs by blast
qed

text \<open>
  C1 (the code at a failing input). \<^verbatim>\<open>git pull\<close> exits with status 1: the one call of
  \<^verbatim>\<open>subprocess.run\<close> is made (no retry), the message with the arguments, the working
  directory, the return code and the captured stderr is logged, and the caller gets
  \<^verbatim>\<open>SystemExit(1)\<close>, not the \<^verbatim>\<open>CalledProcessError\<close> that the \<^verbatim>\<open>raise\<close> after
  \<^verbatim>\<open>Logger().error(...)\<close> was written to deliver.
\<close>

theorem run_command_exits_instead_of_raising:
  "run_command (scripted True) [''git'', ''pull''] True True None (Some ''/repo'')
     (init [Exited 1 [] ''fatal: unable to access''])
   = (Raise (SystemExit 1),
      \<lparr>world = [],
       out = [(ERROR, ''Command failed: git pull'' @ newline
                @ ''Working directory: /repo'' @ newline
                @ ''Return code: 1'' @ newline
                @ ''Stderr: fatal: unable to access'')],
       issued = [([''git'', ''pull''], Some ''/repo'')]\<rparr>)"
  by code_simp

text \<open>
  C2 (the code at a failing input). The repository exists and is clean, and \<^verbatim>\<open>git pull\<close>
  fails: the run ends with \<^verbatim>\<open>SystemExit(1)\<close>; neither "Continuing with existing
  dotfiles..." nor "Dotfiles repository ready" is logged.
\<close>

theorem clone_dotfiles_pull_failure_exits:
  "clone_dotfiles (scripted True) ''/repo''
     (init [Exited 0 ''.git'' [], Exited 0 [] [], Exited 1 [] ''fatal: unable to access''])
   = (Raise (SystemExit 1),
      \<lparr>world = [],
       out = [(INFO, ''Checking dotfiles repository status''),
              (INFO, ''Updating dotfiles repository''),
              (ERROR, ''Command failed: git pull'' @ newline
                @ ''Working directory: /repo'' @ newline
                @ ''Return code: 1'' @ newline
                @ ''Stderr: fatal: unable to access'')],
       issued = [([''git'', ''rev-parse'', ''--git-dir''], Some ''/repo''),
                 ([''git'', ''status'', ''--porcelain''], Some ''/repo''),
                 ([''git'', ''pull''], Some ''/repo'')]\<rparr>)"
  by code_simp

text \<open>
  The handler of \<^verbatim>\<open>clone_dotfiles\<close> would not continue either: it reports through
  \<^verbatim>\<open>self.logger.error\<close> with the default \<^verbatim>\<open>exit=True\<close>.
\<close>

lemma update_handler_exits:
  "fst (andthen (error (''Failed to update repository: '' @ str_exn e) True)
          (info continuing_note) s) = Raise (SystemExit 1)"
  by (simp add: andthen_def bnd_def error_exit)

text \<open>
  C3 (the code at a failing input). The working tree is dirty, the stash and the
  rebasing pull succeed, and \<^verbatim>\<open>git stash pop\<close> reports a conflict: the run ends with
  \<^verbatim>\<open>SystemExit(1)\<close> and the warning of the handler is never logged.
\<close>

theorem clone_dotfiles_stash_conflict_exits:
  "clone_dotfiles (scripted True) ''/repo''
     (init [Exited 0 ''.git'' [], Exited 0 '' M .zshrc'' [], Exited 0 [] [], Exited 0 [] [],
            Exited 0 (''stash@'' @ ''{0}: On main: '' @ stash_label) [],
            Exited 1 ''CONFLICT (content): Merge conflict in .zshrc'' []])
   = (Raise (SystemExit 1),
      \<lparr>world = [],
       out = [(INFO, ''Checking dotfiles repository status''),
              (WARNING, ''Uncommitted changes detected in dotfiles repository''),
              (INFO, ''Stashing local changes...''),
              (INFO, ''Pulling latest changes''),
              (INFO, ''Reapplying stashed changes''),
              (ERROR, ''Command failed: git stash pop'' @ newline
                @ ''Working directory: /repo'' @ newline
                @ ''Return code: 1'' @ newline
                @ ''Stdout: CONFLICT (content): Merge conflict in .zshrc'')],
       issued = [([''git'', ''rev-parse'', ''--git-dir''], Some ''/repo''),
                 ([''git'', ''status'', ''--porcelain''], Some ''/repo''),
                 ([''git'', ''stash'', ''push'', ''-m'', ''Auto-stash before pull''], Some ''/repo''),
                 ([''git'', ''pull'', ''--rebase''], Some ''/repo''),
                 ([''git'', ''stash'', ''list''], Some ''/repo''),
                 ([''git'', ''stash'', ''pop''], Some ''/repo'')]\<rparr>)"
  by code_simp

subsection \<open>Running the synchronizer twice\<close>

lemma run_ok:
  assumes "succeeded (fst (answer E root cmd (world s)))"
  shows "run E cmd (Some root) s =
           (Ok \<lparr>args = cmd, returncode = 0,
                stdout = Some (printed (fst (answer E root cmd (world s)))),
                stderr = (case fst (answer E root cmd (world s)) of
                            Exited rc so se \<Rightarrow> Some se | _ \<Rightarrow> None)\<rparr>,
            s\<lparr>world := snd (answer E root cmd (world s)),
              issued := issued s @ [(cmd, Some root)]\<rparr>)"
proof -
  obtain p w' where ex: "exec E (world s) cmd None (Some root) = (p, w')"
    by (cases "exec E (world s) cmd None (Some root)")
  with assms show ?thesis
    by (cases p)
       (simp_all add: answer_def run_def run_command_def try_except_def subprocess_run_def
          Let_def)
qed

lemma clean_sync_run:
  assumes "clean_sync E root (world s)"
  shows "clone_dotfiles E root s =
           (Ok (), s\<lparr>world := after_sync E root (world s),
                     out := out s @ sync_log,
                     issued := issued s @ map (\<lambda>c. (c, Some root)) sync_cmds\<rparr>)"
  using assms
  by (simp add: clone_dotfiles_def clean_sync_def after_sync_def sync_log_def sync_cmds_def
        Let_def andthen_def bnd_def try_except_def info_def success_def log_def ret_def
        stdout_of_def run_ok)

lemma simulated_clean:
  assumes "present w" "\<not> dirty w" "\<not> untracked w"
  shows "clean_sync simulated root w"
    and "after_sync simulated root w = w\<lparr>head := remote w\<rparr>"
  using assms
  by (simp_all add: clean_sync_def after_sync_def answer_def simulated_def sim_git_def
        strip_nonempty_def Let_def)

text \<open>
  C4, as amended. On a repository that exists and is clean (the directory is there,
  \<^verbatim>\<open>git rev-parse --git-dir\<close>, \<^verbatim>\<open>git status --porcelain\<close> and \<^verbatim>\<open>git pull\<close> succeed and the
  status is blank) at both calls, two calls in a row both return normally, each issues
  exactly those three commands in the repository (no \<^verbatim>\<open>git clone\<close>, no \<^verbatim>\<open>git stash\<close>) and
  logs the same three records ending with "Dotfiles repository ready"; the repository is
  changed only by what the three commands do. In the simulated repository, where a pull
  moves \<^verbatim>\<open>HEAD\<close> to the remote's, every clone that is present and has neither a changed nor
  an untracked file satisfies the condition at both calls, and \<^verbatim>\<open>HEAD\<close> and the stash list
  after the second call are those after the first.
\<close>

theorem clone_dotfiles_twice_on_clean_repository:
  "(clean_sync E root (world s) \<and> clean_sync E root (after_sync E root (world s)) \<longrightarrow>
      fst (clone_dotfiles E root s) = Ok ()
      \<and> world (snd (clone_dotfiles E root s)) = after_sync E root (world s)
      \<and> clone_dotfiles E root (snd (clone_dotfiles E root s))
          = (Ok (), s\<lparr>world := after_sync E root (after_sync E root (world s)),
                      out := out s @ sync_log @ sync_log,
                      issued := issued s @ map (\<lambda>c. (c, Some root)) sync_cmds
                                  @ map (\<lambda>c. (c, Some root)) sync_cmds\<rparr>))
   \<and> (present w \<and> \<not> dirty w \<and> \<not> untracked w \<longrightarrow>
        clean_sync simulated root w \<and> clean_sync simulated root (after_sync simulated root w)
        \<and> head (after_sync simulated root (after_sync simulated root w))
            = head (after_sync simulated root w)
        \<and> stashes (after_sync simulated root (after_sync simulated root w)) = stashes w)"
proof (intro conjI impI)
  assume h: "clean_sync E root (world s) \<and> clean_sync E root (after_sync E root (world s))"
  then have first: "clone_dotfiles E root s =
      (Ok (), s\<lparr>world := after_sync E root (world s), out := out s @ sync_log,
                issued := issued s @ map (\<lambda>c. (c, Some root)) sync_cmds\<rparr>)"
    by (simp add: clean_sync_run)
  then show "fst (clone_dotfiles E root s) = Ok ()"
    and "world (snd (clone_dotfiles E root s)) = after_sync E root (world s)"
    by simp_all
  from h have "clean_sync E root (world (snd (clone_dotfiles E root s)))"
    by (simp add: first)
  from clean_sync_run [OF this]
  show "clone_dotfiles E root (snd (clone_dotfiles E root s))
          = (Ok (), s\<lparr>world := after_sync E root (after_sync E root (world s)),
                      out := out s @ sync_log @ sync_log,
                      issued := issued s @ map (\<lambda>c. (c, Some root)) sync_cmds
                                  @ map (\<lambda>c. (c, Some root)) sync_cmds\<rparr>)"
    by (simp add: first)
next
  assume w: "present w \<and> \<not> dirty w \<and> \<not> untracked w"
  then have a: "after_sync simulated root w = w\<lparr>head := remote w\<rparr>"
    by (simp add: simulated_clean)
  from w show "clean_sync simulated root w"
    by (simp add: simulated_clean)
  from w show "clean_sync simulated root (after_sync simulated root w)"
    by (simp add: a simulated_clean)
  from w show "head (after_sync simulated root (after_sync simulated root w))
                 = head (after_sync simulated root w)"
    by (simp add: a simulated_clean)
  from w show "stashes (after_sync simulated root (after_sync simulated root w)) = stashes w"
    by (simp add: a simulated_clean)
qed

theorem clone_dotfiles_twice_witness:
  "clean_sync simulated ''/repo'' (world (init (sample_repo True 2 False False)))
   \<and> clean_sync simulated ''/repo''
       (after_sync simulated ''/repo'' (world (init (sample_repo True 2 False False))))
   \<and> clone_dotfiles simulated ''/repo''
       (snd (clone_dotfiles simulated ''/repo'' (init (sample_repo True 2 False False))))
     = (Ok (),
        \<lparr>world = sample_repo True 3 False False,
         out = sync_log @ sync_log,
         issued = map (\<lambda>c. (c, Some ''/repo'')) sync_cmds
                    @ map (\<lambda>c. (c, Some ''/repo'')) sync_cmds\<rparr>)
   \<and> present (sample_repo True 2 False False)
   \<and> \<not> dirty (sample_repo True 2 False False)
   \<and> \<not> untracked (sample_repo True 2 False False)
   \<and> head (after_sync simulated ''/repo'' (sample_repo True 2 False False)) = 3"
proof -
  let ?w = "sample_repo True 2 False False"
  have pw: "present ?w \<and> \<not> dirty ?w \<and> \<not> untracked ?w"
    by (simp add: sample_repo_def)
  have a: "after_sync simulated ''/repo'' ?w = sample_repo True 3 False False"
    using pw by (simp add: simulated_clean) (simp add: sample_repo_def)
  have pw': "present (sample_repo True 3 False False)
             \<and> \<not> dirty (sample_repo True 3 False False)
             \<and> \<not> untracked (sample_repo True 3 False False)"
    by (simp add: sample_repo_def)
  have a': "after_sync simulated ''/repo'' (sample_repo True 3 False False)
              = sample_repo True 3 False False"
    using pw' by (simp add: simulated_clean) (simp add: sample_repo_def)
  have h: "clean_sync simulated ''/repo'' (world (init ?w))
           \<and> clean_sync simulated ''/repo'' (after_sync simulated ''/repo'' (world (init ?w)))"
    using pw pw' by (simp add: init_def a simulated_clean)
  from clone_dotfiles_twice_on_clean_repository
         [where E = simulated and root = "''/repo''" and s = "init ?w" and w = ?w] h
  have "clone_dotfiles simulated ''/repo'' (snd (clone_dotfiles simulated ''/repo'' (init ?w)))
          = (Ok (), (init ?w)\<lparr>world := after_sync simulated ''/repo''
                                         (after_sync simulated ''/repo'' (world (init ?w))),
                      out := out (init ?w) @ sync_log @ sync_log,
                      issued := issued (init ?w) @ map (\<lambda>c. (c, Some ''/repo'')) sync_cmds
                                  @ map (\<lambda>c. (c, Some ''/repo'')) sync_cmds\<rparr>)"
    by blast
  then have "clone_dotfiles simulated ''/repo''
               (snd (clone_dotfiles simulated ''/repo'' (init ?w)))
          = (Ok (),
             \<lparr>world = sample_repo True 3 False False,
              out = sync_log @ sync_log,
              issued = map (\<lambda>c. (c, Some ''/repo'')) sync_cmds
                         @ map (\<lambda>c. (c, Some ''/repo'')) sync_cmds\<rparr>)"
    by (simp add: init_def a a')
  moreover have "head (sample_repo True 3 False False) = 3"
    by (simp add: sample_repo_def)
  ultimately show ?thesis
    using h pw a by simp
qed

text \<open>
  C4 as stated fails. On a path that does not exist the first call clones (it issues
  \<^verbatim>\<open>git clone\<close> and nothing else, and moves \<^verbatim>\<open>HEAD\<close>). On a repository with an uncommitted
  change to a tracked file, with no edit in between, both calls take the stash path: the
  reapplied change leaves the tree dirty, so the second call stashes again. On a
  repository whose only change is an untracked file a call takes the stash path too, but
  nothing is stashed and nothing is popped.
\<close>

theorem clone_dotfiles_twice_counterexample:
  "clone_dotfiles simulated ''/repo'' (init (sample_repo False 0 False False))
   = (Ok (),
      \<lparr>world = sample_repo True 3 False False,
       out = [(INFO, ''Cloning dotfiles repository''), (SUCCESS, ''Dotfiles repository ready'')],
       issued = [([''git'', ''clone'', repo_url, ''/repo''], None)]\<rparr>)
   \<and> map fst (issued (snd (clone_dotfiles simulated ''/repo''
        (snd (clone_dotfiles simulated ''/repo'' (init (sample_repo True 3 True False)))))))
     = [[''git'', ''rev-parse'', ''--git-dir''], [''git'', ''status'', ''--porcelain''],
        [''git'', ''stash'', ''push'', ''-m'', ''Auto-stash before pull''],
        [''git'', ''pull'', ''--rebase''], [''git'', ''stash'', ''list''],
        [''git'', ''stash'', ''pop''],
        [''git'', ''rev-parse'', ''--git-dir''], [''git'', ''status'', ''--porcelain''],
        [''git'', ''stash'', ''push'', ''-m'', ''Auto-stash before pull''],
        [''git'', ''pull'', ''--rebase''], [''git'', ''stash'', ''list''],
        [''git'', ''stash'', ''pop'']]
   \<and> map fst (issued (snd (clone_dotfiles simulated ''/repo''
        (init (sample_repo True 3 False True)))))
     = [[''git'', ''rev-parse'', ''--git-dir''], [''git'', ''status'', ''--porcelain''],
        [''git'', ''stash'', ''push'', ''-m'', ''Auto-stash before pull''],
        [''git'', ''pull'', ''--rebase''], [''git'', ''stash'', ''list'']]"
  by code_simp

subsection \<open>The stash path without a conflict\<close>

text \<open>
  In the simulated repository a tree with a change to a tracked file is stashed under the
  label, the pull moves \<^verbatim>\<open>HEAD\<close> to the remote's, and the stash is popped again: afterwards
  the change is back in the working tree and the stash list is what it was. A tree whose
  only change is an untracked file takes the same branch, but nothing is saved, the
  stash list does not show the label and no pop is issued.
\<close>

lemma contains_append: "contains (xs @ pat @ ys) pat"
proof (induction xs)
  case Nil
  have "prefix pat (pat @ ys)" by simp
  then show ?case by (cases "pat @ ys") auto
next
  case (Cons x xs)
  then show ?case by simp
qed

lemma dirty_sync_simulated:
  assumes "present w" "dirty w"
  shows "clone_dotfiles simulated root (init w) =
           (Ok (),
            \<lparr>world = w\<lparr>head := remote w\<rparr>,
             out = [(INFO, ''Checking dotfiles repository status''),
                    (WARNING, ''Uncommitted changes detected in dotfiles repository''),
                    (INFO, ''Stashing local changes...''),
                    (INFO, ''Pulling latest changes''),
                    (INFO, ''Reapplying stashed changes''),
                    (SUCCESS, ready_note)],
             issued = map (\<lambda>c. (c, Some root))
                        [[''git'', ''rev-parse'', ''--git-dir''],
                         [''git'', ''status'', ''--porcelain''],
                         [''git'', ''stash'', ''push'', ''-m'', stash_label],
                         [''git'', ''pull'', ''--rebase''],
                         [''git'', ''stash'', ''list''],
                         [''git'', ''stash'', ''pop'']]\<rparr>)"
proof -
  have "contains ((''stash@'' @ ''{'' @ str_nat 0 @ ''}: On main: '') @ stash_label
                    @ (newline @ stash_lines_from 1 (stashes w))) stash_label"
    by (rule contains_append)
  then have c: "contains (stash_lines (stash_label # stashes w)) stash_label"
    by (simp add: stash_lines_def stash_lines_from_def)
  have a: "\<And>cmd v. answer simulated root cmd v = sim_git v cmd None (Some root)"
    by (simp add: answer_def simulated_def)
  have d: "\<And>t. strip_nonempty ('' M .zshrc'' @ t)"
    by (simp add: strip_nonempty_def is_space_def)
  have pe: "\<And>v. path_exists simulated v root = present v"
    by (simp add: simulated_def)
  show ?thesis
    using assms c d [of "newline @ (if untracked w then ''?? notes.txt'' @ newline else [])"]
    by (simp add: clone_dotfiles_def andthen_def bnd_def try_except_def info_def warning_def
          success_def log_def ret_def stdout_of_def run_ok a pe sim_git_def init_def
          stash_label_def)
qed

section \<open>Properties of the config resolver\<close>

lemma map_of_setitem: "map_of (setitem k v d) = (map_of d)(k \<mapsto> v)"
  by (induction d) auto

lemma keys_setitem: "fst ` set (setitem k v d) = insert k (fst ` set d)"
proof (induction d)
  case Nil
  then show ?case by simp
next
  case (Cons a d)
  then show ?case by (cases a) (simp add: insert_commute)
qed

lemma map_of_merge_config:
  "distinct (map fst update) \<Longrightarrow>
   map_of (merge_config base update) k =
     (case map_of update k of
        None \<Rightarrow> map_of base k
      | Some v \<Rightarrow>
          (case (map_of base k, v) of
             (Some (PDict b), PDict u) \<Rightarrow> Some (PDict (merge_config b u))
           | _ \<Rightarrow> Some v))"
proof (induction update arbitrary: base)
  case Nil
  then show ?case by simp
next
  case (Cons kv rest)
  obtain key val where kv: "kv = (key, val)" by (cases kv)
  define base' where "base' =
     (case (map_of base key, val) of
        (Some (PDict b), PDict u) \<Rightarrow> setitem key (PDict (merge_config b u)) base
      | _ \<Rightarrow> setitem key val base)"
  from Cons.prems kv have d: "distinct (map fst rest)" and nk: "map_of rest key = None"
    by (auto simp: map_of_eq_None_iff)
  have unfold: "merge_config base (kv # rest) = merge_config base' rest"
    by (simp add: kv base'_def)
  have other: "k \<noteq> key \<Longrightarrow> map_of base' k = map_of base k"
    by (auto simp: base'_def map_of_setitem split: option.splits pyval.splits)
  have same: "map_of base' key =
      (case (map_of base key, val) of
         (Some (PDict b), PDict u) \<Rightarrow> Some (PDict (merge_config b u))
       | _ \<Rightarrow> Some val)"
    by (auto simp: base'_def map_of_setitem split: option.splits pyval.splits)
  show ?case
  proof (cases "k = key")
    case True
    have "map_of (merge_config base' rest) key = map_of base' key"
      using Cons.IH [OF d, of base'] nk True by simp
    with same True show ?thesis
      unfolding unfold by (simp add: kv)
  next
    case False
    with other show ?thesis
      unfolding unfold by (simp add: Cons.IH [OF d] kv split: option.splits)
  qed
qed

lemma keys_merge_config:
  "fst ` set (merge_config base update) = fst ` set base \<union> fst ` set update"
proof (induction update arbitrary: base)
  case Nil
  then show ?case by simp
next
  case (Cons kv rest)
  obtain key val where kv: "kv = (key, val)" by (cases kv)
  define base' where "base' =
     (case (map_of base key, val) of
        (Some (PDict b), PDict u) \<Rightarrow> setitem key (PDict (merge_config b u)) base
      | _ \<Rightarrow> setitem key val base)"
  have keys: "fst ` set base' = insert key (fst ` set base)"
    by (simp add: base'_def keys_setitem split: option.splits pyval.splits)
  have unfold: "merge_config base (kv # rest) = merge_config base' rest"
    by (simp add: kv base'_def)
  show ?case
    unfolding unfold using Cons.IH [of base'] keys kv by auto
qed

lemma split_nonempty: "split sep s \<noteq> []"
  by (induction s) (auto split: list.splits)

lemma split_no_sep: "sep \<notin> set k \<Longrightarrow> split sep k = [k]"
  by (induction k) auto

lemma split_append_sep:
  "sep \<notin> set k \<Longrightarrow> split sep (k @ sep # rest) = k # split sep rest"
  by (induction k) auto

lemma split_join:
  "segments ks \<Longrightarrow> split (CHR ''.'') (join ''.'' ks) = ks"
proof (induction ks rule: induct_list012)
  case 1
  then show ?case by (simp add: segments_def)
next
  case (2 x)
  then show ?case by (simp add: segments_def split_no_sep)
next
  case (3 x y ys)
  then show ?case by (simp add: segments_def split_append_sep)
qed

lemma walk_descend:
  "walk v ks fb = (case descend v ks of None \<Rightarrow> fb | Some x \<Rightarrow> if x = PNone \<and> ks \<noteq> [] then fb else x)"
proof (induction ks arbitrary: v)
  case Nil
  then show ?case by simp
next
  case (Cons k ks)
  show ?case
  proof (cases v)
    case (PDict d)
    show ?thesis
    proof (cases "map_of d k")
      case None
      with PDict show ?thesis by simp
    next
      case (Some x)
      show ?thesis
      proof (cases "x = PNone")
        case True
        with PDict Some show ?thesis by (cases ks) simp_all
      next
        case False
        with PDict Some Cons.IH [of x] show ?thesis
          by (cases x) (auto split: option.splits)
      qed
    qed
  qed simp_all
qed

lemma distinct_keys_item:
  "distinct_keys (PDict d) \<Longrightarrow> map_of d k = Some x \<Longrightarrow> distinct_keys x"
  by (auto simp: list_all_iff dest!: map_of_SomeD)

lemma descend_untouched:
  "distinct_keys (PDict update) \<Longrightarrow> untouched (PDict update) ks
     \<Longrightarrow> descend (PDict base) ks = Some v
     \<Longrightarrow> descend (PDict (merge_config base update)) ks = Some v"
proof (induction ks arbitrary: base update v)
  case Nil
  then show ?case by simp
next
  case (Cons k rest)
  from Cons.prems(1) have d: "distinct (map fst update)" by simp
  note m = map_of_merge_config [OF d, of base k]
  show ?case
  proof (cases "map_of update k")
    case None
    with m Cons.prems(3) show ?thesis by simp
  next
    case (Some x)
    with Cons.prems(2) have ux: "untouched x rest" by simp
    then obtain k' rest' where rest: "rest = k' # rest'" by (cases rest) auto
    with ux obtain u where x: "x = PDict u" by (cases x) auto
    from Cons.prems(3) obtain y where y: "map_of base k = Some y" "descend y rest = Some v"
      by (auto split: option.splits)
    with rest obtain b where b: "y = PDict b" by (cases y) auto
    from distinct_keys_item [OF Cons.prems(1)] Some x have "distinct_keys (PDict u)"
      by blast
    from Cons.IH [OF this] ux x y b
    have "descend (PDict (merge_config b u)) rest = Some v" by simp
    with m Some x y b show ?thesis by simp
  qed
qed

lemma descend_override_scalar:
  "distinct_keys (PDict update) \<Longrightarrow> descend (PDict update) ks = Some (PScalar c)
     \<Longrightarrow> descend (PDict (merge_config base update)) ks = Some (PScalar c)"
proof (induction ks arbitrary: base update)
  case Nil
  then show ?case by simp
next
  case (Cons k rest)
  from Cons.prems(1) have d: "distinct (map fst update)" by simp
  note m = map_of_merge_config [OF d, of base k]
  from Cons.prems(2) obtain x where x: "map_of update k = Some x" "descend x rest = Some (PScalar c)"
    by (auto split: option.splits)
  show ?case
  proof (cases "\<exists>b u. map_of base k = Some (PDict b) \<and> x = PDict u")
    case True
    then obtain b u where bu: "map_of base k = Some (PDict b)" "x = PDict u" by blast
    from distinct_keys_item [OF Cons.prems(1)] x bu have "distinct_keys (PDict u)"
      by blast
    from Cons.IH [OF this] x bu
    have "descend (PDict (merge_config b u)) rest = Some (PScalar c)" by simp
    with m x bu show ?thesis by simp
  next
    case False
    with m x have "map_of (merge_config base update) k = Some x"
      by (auto split: option.splits pyval.splits)
    with x show ?thesis by simp
  qed
qed

lemma get_descend:
  "get config key fb =
     (case descend (PDict config) (split (CHR ''.'') key) of
        None \<Rightarrow> fb
      | Some x \<Rightarrow> if x = PNone then fb else x)"
  by (simp add: get_def walk_descend split_nonempty split: option.splits)

text \<open>
  What it means that the override leaves a path alone: the path leads to nothing in the
  override, and whatever the override holds on the way is a mapping.
\<close>

lemma untouched_iff:
  "untouched v ks \<longleftrightarrow>
     descend v ks = None
     \<and> (\<forall>p x. strict_prefix p ks \<and> descend v p = Some x \<longrightarrow> is_dict x)"
proof (induction ks arbitrary: v)
  case Nil
  then show ?case by simp
next
  case (Cons k ks)
  show ?case
  proof (cases v)
    case (PDict d)
    show ?thesis
    proof (cases "map_of d k")
      case None
      have "is_dict x" if "strict_prefix p (k # ks)" "descend v p = Some x" for p x
        using that PDict None by (cases p) auto
      with PDict None show ?thesis by auto
    next
      case (Some y)
      have "(\<forall>p x. strict_prefix p (k # ks) \<and> descend v p = Some x \<longrightarrow> is_dict x)
            \<longleftrightarrow> (\<forall>p x. strict_prefix p ks \<and> descend y p = Some x \<longrightarrow> is_dict x)"
      proof
        assume a: "\<forall>p x. strict_prefix p (k # ks) \<and> descend v p = Some x \<longrightarrow> is_dict x"
        show "\<forall>p x. strict_prefix p ks \<and> descend y p = Some x \<longrightarrow> is_dict x"
        proof (intro allI impI)
          fix p x assume "strict_prefix p ks \<and> descend y p = Some x"
          with a [rule_format, of "k # p" x] PDict Some show "is_dict x" by simp
        qed
      next
        assume a: "\<forall>p x. strict_prefix p ks \<and> descend y p = Some x \<longrightarrow> is_dict x"
        show "\<forall>p x. strict_prefix p (k # ks) \<and> descend v p = Some x \<longrightarrow> is_dict x"
        proof (intro allI impI)
          fix p x assume h: "strict_prefix p (k # ks) \<and> descend v p = Some x"
          show "is_dict x"
          proof (cases p)
            case Nil
            with h PDict show ?thesis by auto
          next
            case (Cons k' p')
            with h PDict Some a [rule_format, of p' x] show ?thesis by (auto split: if_splits)
          qed
        qed
      qed
      with PDict Some Cons.IH [of y] show ?thesis by simp
    qed
  next
    case PNone
    have "strict_prefix [] (k # ks)" by simp
    with PNone show ?thesis by (auto intro!: exI [of _ "[]"])
  next
    case (PScalar a)
    have "strict_prefix [] (k # ks)" by simp
    with PScalar show ?thesis by (auto intro!: exI [of _ "[]"])
  next
    case (PList xs)
    have "strict_prefix [] (k # ks)" by simp
    with PList show ?thesis by (auto intro!: exI [of _ "[]"])
  qed
qed

text \<open>
  C6, as amended. \<^verbatim>\<open>get\<close> splits the key at the dots and follows the segments through
  the merged tree; it returns the fallback when a segment is missing, when the value
  reached is not a mapping, and when the value found is \<^verbatim>\<open>None\<close>, and the value found
  otherwise. For a dotted key whose value in the defaults is not \<^verbatim>\<open>None\<close> and that the
  override leaves alone (the override binds neither the key nor, to anything but a
  mapping, a prefix of it), \<^verbatim>\<open>get\<close> on the merged tree returns the default value. For a
  dotted key bound to a scalar in both trees, \<^verbatim>\<open>get\<close> returns the override's value.
\<close>

theorem get_resolves_dotted_keys:
  "get config key fb =
     (case descend (PDict config) (split (CHR ''.'') key) of
        None \<Rightarrow> fb
      | Some x \<Rightarrow> if x = PNone then fb else x)
   \<and> (segments ks \<and> distinct_keys (PDict update) \<and> untouched (PDict update) ks
        \<and> descend (PDict base) ks = Some v \<and> v \<noteq> PNone
        \<longrightarrow> get (merge_config base update) (join ''.'' ks) fb = v)
   \<and> (segments ks \<and> distinct_keys (PDict update)
        \<and> descend (PDict update) ks = Some (PScalar c)
        \<and> descend (PDict base) ks = Some (PScalar a)
        \<longrightarrow> get (merge_config base update) (join ''.'' ks) fb = PScalar c)"
  by (simp add: get_descend split_join descend_untouched descend_override_scalar)

text \<open>
  C5. Merging is a key-wise union: the keys of the result are those of both mappings, a
  key of the override bound to a mapping on both sides holds the recursive merge, every
  other key of the override holds the override's value, and the remaining keys keep the
  default's. A list in the override therefore replaces the default list: with the
  ten-item default \<^verbatim>\<open>tools\<close>, the override \<^verbatim>\<open>{"tools": ["ripgrep"]}\<close> makes
  \<^verbatim>\<open>get("tools")\<close> return \<^verbatim>\<open>["ripgrep"]\<close>.
\<close>

theorem merge_config_is_recursive_keywise_union:
  "(distinct (map fst update) \<longrightarrow>
      fst ` set (merge_config base update) = fst ` set base \<union> fst ` set update
      \<and> map_of (merge_config base update) k =
          (case map_of update k of
             None \<Rightarrow> map_of base k
           | Some v \<Rightarrow>
               (case (map_of base k, v) of
                  (Some (PDict b), PDict u) \<Rightarrow> Some (PDict (merge_config b u))
                | _ \<Rightarrow> Some v))
      \<and> (map_of update k = Some (PList xs) \<and> CHR ''.'' \<notin> set k
           \<longrightarrow> get (merge_config base update) k fb = PList xs))
   \<and> get (DEFAULT_CONFIG home) ''tools'' fb =
        PList (map (\<lambda>t. PScalar (Str t))
          [''ripgrep'', ''fd'', ''bat'', ''eza'', ''fzf'', ''tmux'', ''neovim'', ''htop'', ''jq'',
           ''tldr''])
   \<and> Config (DEFAULT_CONFIG home) (Some (PDict [(''tools'', PList [PScalar (Str ''ripgrep'')])]))
        = Ok (merge_config (DEFAULT_CONFIG home) [(''tools'', PList [PScalar (Str ''ripgrep'')])])
   \<and> get (merge_config (DEFAULT_CONFIG home) [(''tools'', PList [PScalar (Str ''ripgrep'')])])
        ''tools'' fb = PList [PScalar (Str ''ripgrep'')]"
proof (intro conjI impI)
  assume d: "distinct (map fst update)"
  show "fst ` set (merge_config base update) = fst ` set base \<union> fst ` set update"
    by (rule keys_merge_config)
  show "map_of (merge_config base update) k =
          (case map_of update k of
             None \<Rightarrow> map_of base k
           | Some v \<Rightarrow>
               (case (map_of base k, v) of
                  (Some (PDict b), PDict u) \<Rightarrow> Some (PDict (merge_config b u))
                | _ \<Rightarrow> Some v))"
    by (rule map_of_merge_config [OF d])
  assume "map_of update k = Some (PList xs) \<and> CHR ''.'' \<notin> set k"
  then show "get (merge_config base update) k fb = PList xs"
    by (simp add: get_def split_no_sep map_of_merge_config [OF d] split: option.splits pyval.splits)
next
  show "get (DEFAULT_CONFIG home) ''tools'' fb =
        PList (map (\<lambda>t. PScalar (Str t))
          [''ripgrep'', ''fd'', ''bat'', ''eza'', ''fzf'', ''tmux'', ''neovim'', ''htop'', ''jq'',
           ''tldr''])"
    by (simp add: get_def DEFAULT_CONFIG_def)
  show "Config (DEFAULT_CONFIG home) (Some (PDict [(''tools'', PList [PScalar (Str ''ripgrep'')])]))
        = Ok (merge_config (DEFAULT_CONFIG home) [(''tools'', PList [PScalar (Str ''ripgrep'')])])"
    by (simp add: Config_def)
  show "get (merge_config (DEFAULT_CONFIG home) [(''tools'', PList [PScalar (Str ''ripgrep'')])])
        ''tools'' fb = PList [PScalar (Str ''ripgrep'')]"
    by (simp add: get_def DEFAULT_CONFIG_def)
qed

theorem merge_config_witness:
  "distinct (map fst [(''tools'', PList [PScalar (Str ''ripgrep'')]),
                      (''shell'', PDict [(''default'', PScalar (Str ''bash''))])])
   \<and> map_of [(''tools'', PList [PScalar (Str ''ripgrep'')]),
              (''shell'', PDict [(''default'', PScalar (Str ''bash''))])] ''tools''
        = Some (PList [PScalar (Str ''ripgrep'')])
   \<and> CHR ''.'' \<notin> set ''tools''
   \<and> get (merge_config (DEFAULT_CONFIG [''home'', ''u''])
             [(''tools'', PList [PScalar (Str ''ripgrep'')]),
              (''shell'', PDict [(''default'', PScalar (Str ''bash''))])])
          ''tools'' PNone
        = PList [PScalar (Str ''ripgrep'')]"
  using merge_config_is_recursive_keywise_union
    [where update = "[(''tools'', PList [PScalar (Str ''ripgrep'')]),
                      (''shell'', PDict [(''default'', PScalar (Str ''bash''))])]"
       and base = "DEFAULT_CONFIG [''home'', ''u'']" and k = "''tools''"
       and xs = "[PScalar (Str ''ripgrep'')]" and fb = PNone and home = "[''home'', ''u'']"]
  by simp

theorem get_resolves_dotted_keys_witness:
  "segments [''shell'', ''theme'']
   \<and> distinct_keys (PDict [(''shell'', PDict [(''default'', PScalar (Str ''bash''))])])
   \<and> untouched (PDict [(''shell'', PDict [(''default'', PScalar (Str ''bash''))])])
        [''shell'', ''theme'']
   \<and> descend (PDict (DEFAULT_CONFIG [''home'', ''u''])) [''shell'', ''theme'']
        = Some (PScalar (Str ''powerlevel10k''))
   \<and> get (merge_config (DEFAULT_CONFIG [''home'', ''u''])
             [(''shell'', PDict [(''default'', PScalar (Str ''bash''))])])
          ''shell.theme'' PNone
        = PScalar (Str ''powerlevel10k'')
   \<and> segments [''shell'', ''default'']
   \<and> descend (PDict [(''shell'', PDict [(''default'', PScalar (Str ''bash''))])])
        [''shell'', ''default'']
        = Some (PScalar (Str ''bash''))
   \<and> descend (PDict (DEFAULT_CONFIG [''home'', ''u''])) [''shell'', ''default'']
        = Some (PScalar (Str ''zsh''))
   \<and> get (merge_config (DEFAULT_CONFIG [''home'', ''u''])
             [(''shell'', PDict [(''default'', PScalar (Str ''bash''))])])
          ''shell.default'' PNone
        = PScalar (Str ''bash'')"
proof -
  let ?update = "[(''shell'', PDict [(''default'', PScalar (Str ''bash''))])]"
  let ?base = "DEFAULT_CONFIG [''home'', ''u'']"
  have s1: "segments [''shell'', ''theme'']" and s2: "segments [''shell'', ''default'']"
    by (simp_all add: segments_def)
  have d: "distinct_keys (PDict ?update)" by simp
  have u: "untouched (PDict ?update) [''shell'', ''theme'']" by simp
  have b1: "descend (PDict ?base) [''shell'', ''theme''] = Some (PScalar (Str ''powerlevel10k''))"
    and b2: "descend (PDict ?base) [''shell'', ''default''] = Some (PScalar (Str ''zsh''))"
    by (simp_all add: DEFAULT_CONFIG_def)
  have o: "descend (PDict ?update) [''shell'', ''default''] = Some (PScalar (Str ''bash''))"
    by simp
  have g1: "get (merge_config ?base ?update) (join ''.'' [''shell'', ''theme'']) PNone
              = PScalar (Str ''powerlevel10k'')"
    using get_resolves_dotted_keys
      [where ks = "[''shell'', ''theme'']" and update = ?update and base = ?base
         and v = "PScalar (Str ''powerlevel10k'')" and fb = PNone]
      s1 d u b1
    by blast
  have g2: "get (merge_config ?base ?update) (join ''.'' [''shell'', ''default'']) PNone
              = PScalar (Str ''bash'')"
    using get_resolves_dotted_keys
      [where ks = "[''shell'', ''default'']" and update = ?update and base = ?base
         and c = "Str ''bash''" and a = "Str ''zsh''" and fb = PNone]
      s2 d o b2
    by blast
  from g1 g2 have "get (merge_config ?base ?update) ''shell.theme'' PNone
              = PScalar (Str ''powerlevel10k'')"
    and "get (merge_config ?base ?update) ''shell.default'' PNone = PScalar (Str ''bash'')"
    by simp_all
  with s1 s2 d u b1 b2 o show ?thesis by blast
qed

text \<open>
  C6 as stated fails where the override replaces a mapping of the defaults wholesale:
  \<^verbatim>\<open>shell.default\<close> is in the defaults and not in the override \<^verbatim>\<open>{"shell": "bash"}\<close>, yet
  \<^verbatim>\<open>get\<close> on the merged tree returns the fallback, not the default \<^verbatim>\<open>'zsh'\<close>.
\<close>

theorem get_default_only_counterexample:
  "descend (PDict (DEFAULT_CONFIG [''home'', ''u''])) [''shell'', ''default'']
     = Some (PScalar (Str ''zsh''))
   \<and> descend (PDict [(''shell'', PScalar (Str ''bash''))]) [''shell'', ''default''] = None
   \<and> get (DEFAULT_CONFIG [''home'', ''u'']) ''shell.default'' PNone = PScalar (Str ''zsh'')
   \<and> get (merge_config (DEFAULT_CONFIG [''home'', ''u'']) [(''shell'', PScalar (Str ''bash''))])
        ''shell.default'' PNone = PNone"
  by (simp add: get_def DEFAULT_CONFIG_def)

subsection \<open>The defaults after a merge\<close>

lemma class_heap_reads_DEFAULT_CONFIG:
  "read 2 (class_heap home) (HRef 0) = PDict (DEFAULT_CONFIG home)"
  by (simp add: class_heap_def DEFAULT_CONFIG_def numeral_2_eq_2)

text \<open>
  C7 (the code at a failing input). A configuration is built with the override
  \<^verbatim>\<open>{"shell": {"default": "bash"}}\<close>, then a second one with no override. The class
  attribute itself now holds \<^verbatim>\<open>'bash'\<close> under \<^verbatim>\<open>shell.default\<close>, and so does the second
  configuration: the shallow \<^verbatim>\<open>copy()\<close> shares the \<^verbatim>\<open>'shell'\<close> mapping that the merge
  updates in place.
\<close>

theorem shallow_copy_shares_nested_defaults:
  "get_heap (class_heap [''home'', ''u'']) 0 ''shell.default'' (HVal PNone)
     = HVal (PScalar (Str ''zsh''))
   \<and> fst (new_Config 0 (Some (PDict [(''shell'', PDict [(''default'', PScalar (Str ''bash''))])]))
            (class_heap [''home'', ''u''])) = Ok 2
   \<and> get_heap
        (snd (new_Config 0 (Some (PDict [(''shell'', PDict [(''default'', PScalar (Str ''bash''))])]))
                (class_heap [''home'', ''u''])))
        0 ''shell.default'' (HVal PNone)
     = HVal (PScalar (Str ''bash''))
   \<and> fst (new_Config 0 None
        (snd (new_Config 0 (Some (PDict [(''shell'', PDict [(''default'', PScalar (Str ''bash''))])]))
                (class_heap [''home'', ''u''])))) = Ok 3
   \<and> get_heap
        (snd (new_Config 0 None
           (snd (new_Config 0
                   (Some (PDict [(''shell'', PDict [(''default'', PScalar (Str ''bash''))])]))
                   (class_heap [''home'', ''u''])))))
        3 ''shell.default'' (HVal PNone)
     = HVal (PScalar (Str ''bash''))"
  by code_simp

section \<open>Properties of the file manager\<close>



















lemma strict_prefix_append: "strict_prefix p k \<Longrightarrow> p @ drop (length p) k = k"
  by (auto simp: strict_prefix_def prefix_def)

























end
